theory Spec2Isabelle
  imports Complex_Main
begin

section \<open>Data model\<close>

text \<open>
  The shared schema: the settings, the console messages and the status snapshot.
  The coordinates of the settings are validated as integers by the schema
  (\<open>z.number().int()\<close>), so block coordinates are \<open>int\<close>; the position of the
  entity in the world is a triple of doubles, each a real number. Every number of the
  program is an IEEE double: the arithmetic on them rounds, and is modelled in the next
  section.
\<close>

datatype MsgType = Info | Warning | Error

record ConsoleMessage =
  timestamp :: string
  message :: string
  mtype :: MsgType

record BotSettings =
  serverAddress :: string
  botUsername :: string
  posX :: int
  posY :: int
  posZ :: int

record BlockPos =
  px :: int
  py :: int
  pz :: int

record Vec3 =
  vx :: real
  vy :: real
  vz :: real

record BotStatus =
  connected :: bool
  activity :: string
  position :: BlockPos
  time :: string
  players :: "string list"
  area :: "bool list"

section \<open>JavaScript numbers\<close>

text \<open>
  A JavaScript number is an IEEE 754 double. The sum, difference or product of two
  doubles is the exact result rounded to the nearest double, ties to the even
  significand: \<open>roundDouble\<close>, with 53 significant bits and the subnormal grid below
  \<open>2^-1022\<close>. No operation of the controller can overflow (it adds 1, -1 or an offset
  to a coordinate, and multiplies a draw below 1 by 3 or 3000), so infinities and NaN are
  not modelled.
\<close>

definition roundHalfEven :: "real \<Rightarrow> int" where
  "roundHalfEven y =
     (let n = \<lfloor>y\<rfloor>
      in if y - of_int n < 1 / 2 then n
         else if y - of_int n > 1 / 2 then n + 1
         else if even n then n else n + 1)"

definition ulpExp :: "real \<Rightarrow> int" where
  "ulpExp x = max \<lfloor>log 2 \<bar>x\<bar>\<rfloor> (- 1022) - 52"

definition ulp :: "real \<Rightarrow> real" where
  "ulp x = 2 powr of_int (ulpExp x)"

definition roundDouble :: "real \<Rightarrow> real" where
  "roundDouble x = (if x = 0 then 0 else of_int (roundHalfEven (x / ulp x)) * ulp x)"

text \<open>The reals that are doubles: those that rounding leaves as they are.\<close>

definition isDouble :: "real \<Rightarrow> bool" where
  "isDouble x = (roundDouble x = x)"

definition jsAdd :: "real \<Rightarrow> real \<Rightarrow> real" where
  "jsAdd a b = roundDouble (a + b)"

definition jsSub :: "real \<Rightarrow> real \<Rightarrow> real" where
  "jsSub a b = roundDouble (a - b)"

definition jsMul :: "real \<Rightarrow> real \<Rightarrow> real" where
  "jsMul a b = roundDouble (a * b)"

text \<open>
  Sum and difference of two integer-valued doubles. The rounded result is an integer
  again; it is the exact one up to magnitude \<open>2^53\<close>.
\<close>

definition jsAddInt :: "int \<Rightarrow> int \<Rightarrow> int" where
  "jsAddInt a b = \<lfloor>jsAdd (of_int a) (of_int b)\<rfloor>"

definition jsSubInt :: "int \<Rightarrow> int \<Rightarrow> int" where
  "jsSubInt a b = \<lfloor>jsSub (of_int a) (of_int b)\<rfloor>"

section \<open>The in-memory storage\<close>

text \<open>
  \<open>MemStorage\<close>: the settings and the console messages (the user table and the
  session store play no part in the controller).
\<close>

record MemStorage =
  botSettings :: BotSettings
  consoleMessages :: "ConsoleMessage list"

definition newMemStorage :: MemStorage where
  "newMemStorage =
     \<lparr>botSettings = \<lparr>serverAddress = ''mc.example.com'', botUsername = ''MinecraftBot'',
                      posX = 0, posY = 64, posZ = 0\<rparr>,
      consoleMessages = []\<rparr>"

text \<open>\<open>consoleMessages.push(message)\<close>, then \<open>shift()\<close> when the length is above 100.\<close>

definition storeAddConsoleMessage :: "ConsoleMessage \<Rightarrow> MemStorage \<Rightarrow> MemStorage" where
  "storeAddConsoleMessage m st =
     (let pushed = consoleMessages st @ [m]
      in st\<lparr>consoleMessages := (if length pushed > 100 then tl pushed else pushed)\<rparr>)"

definition storeClearConsoleMessages :: "MemStorage \<Rightarrow> MemStorage" where
  "storeClearConsoleMessages st = st\<lparr>consoleMessages := []\<rparr>"

definition storeUpdateBotSettings :: "BotSettings \<Rightarrow> MemStorage \<Rightarrow> MemStorage" where
  "storeUpdateBotSettings bs st = st\<lparr>botSettings := bs\<rparr>"

text \<open>A run of appends, oldest message first.\<close>

definition storeAddAll :: "ConsoleMessage list \<Rightarrow> MemStorage \<Rightarrow> MemStorage" where
  "storeAddAll ms st = foldl (\<lambda>acc m. storeAddConsoleMessage m acc) st ms"

section \<open>The session and the controller\<close>

text \<open>
  What the controller reads from the session object: the agent's name, the entity's
  position (absent until the login has created the entity), the rest flag, the time of
  day (absent while \<open>bot.time\<close> is falsy), the keys of \<open>bot.players\<close> (an absent table
  and an empty one behave alike in every place the controller reads it), and what
  \<open>findBlock\<close> for a bed within 10 blocks would return now.
\<close>

record Bot =
  username :: string
  entity :: "Vec3 option"
  isSleeping :: bool
  timeOfDay :: "int option"
  playerKeys :: "string list"
  nearBed :: "BlockPos option"

text \<open>
  Exceptions are values. A \<open>TypeError\<close> is the read of \<open>position\<close> on an undefined
  entity or of a field of null settings; \<open>Thrown\<close> is an exception raised by the
  session library (\<open>createBot\<close>, \<open>quit\<close>), already formatted as the template
  string prints it. The other calls on the session are taken not to throw.
\<close>

datatype Exn = TypeError string | Thrown string

definition entityUndefined :: Exn where
  "entityUndefined =
     TypeError (''Cannot read properties of undefined (reading '' @ [CHR 0x27] @ ''position''
                  @ [CHR 0x27] @ '')'')"

datatype Goal = GoalBlock int int int | GoalNear int int int int

datatype WakeCall = StandardWake | CheckWake | EmergencyWake nat

datatype Task =
    ConnectionTimeout | WakeupInterval | SpawnRecheck | ForceWakeUp | BoundaryCheck
  | ReleaseForward | WanderStep | Watchdog | CheckWakeRetry | EmergencyWakeRetry nat

datatype Payload = StatusMsg BotStatus | ConsoleMsg ConsoleMessage | ConsoleClearMsg

text \<open>The calls the controller makes on its collaborators, recorded in order.\<close>

datatype Effect =
    Send nat Payload
  | CreateBot string string
  | LoadPlugin
  | Quit
  | SetTimeout real Task
  | SetInterval real Task
  | ClearTimeout Task
  | ClearInterval Task
  | SetMovements
  | SetGoal "Goal option"
  | SetControlState bool
  | LookAt Vec3
  | ClearControlStates
  | FindBlock
  | OnceGoalReached BlockPos
  | Sleep BlockPos
  | Wake WakeCall

record Client =
  cid :: nat
  readyOpen :: bool

text \<open>
  The fields of \<open>MinecraftBot\<close>, the storage singleton it writes to, the trace of its
  calls, and the clocks it reads: the wall clock (\<open>new Date()\<close> formatted, and
  \<open>Date.now()\<close>) and the clock of the event loop, which counts from the start of the
  process and stamps the \<open>_idleStart\<close> of a timer when it is armed. \<open>timeoutId\<close> holds
  the \<open>_idleStart\<close> of the pending wander timer.
\<close>

record Ctrl =
  bot :: "Bot option"
  settings :: "BotSettings option"
  running :: bool
  homePosition :: "BlockPos option"
  clients :: "Client list"
  timeoutId :: "real option"
  storage :: MemStorage
  trace :: "Effect list"
  nowText :: string
  nowMs :: real
  loopMs :: real

text \<open>A result: the state reached, or the exception thrown and the state at the throw.\<close>

type_synonym Res = "(Exn \<times> Ctrl) + Ctrl"

definition andThen :: "Res \<Rightarrow> (Ctrl \<Rightarrow> Res) \<Rightarrow> Res" where
  "andThen r f = (case r of Inl e \<Rightarrow> Inl e | Inr s \<Rightarrow> f s)"

definition tryCatch :: "Res \<Rightarrow> (Exn \<Rightarrow> Ctrl \<Rightarrow> Res) \<Rightarrow> Res" where
  "tryCatch r h = (case r of Inl (e, s) \<Rightarrow> h e s | Inr s \<Rightarrow> Inr s)"

definition stateOf :: "Res \<Rightarrow> Ctrl" where
  "stateOf r = (case r of Inl (e, s) \<Rightarrow> s | Inr s \<Rightarrow> s)"

definition emit :: "Effect \<Rightarrow> Ctrl \<Rightarrow> Ctrl" where
  "emit e s = s\<lparr>trace := trace s @ [e]\<rparr>"

subsection \<open>Strings\<close>

text \<open>
  A number inside a template string. \<open>showInt\<close> prints every digit, as JavaScript does
  for an integer-valued number below \<open>10 ^ 21\<close> in magnitude; above that JavaScript writes
  an exponent. The strings built here appear in log entries only.
\<close>

fun showNat :: "nat \<Rightarrow> string" where
  "showNat n = (if n < 10 then [char_of (48 + n)]
                else showNat (n div 10) @ [char_of (48 + n mod 10)])"

declare showNat.simps [simp del]

definition showInt :: "int \<Rightarrow> string" where
  "showInt i = (if i < 0 then CHR ''-'' # showNat (nat (- i)) else showNat (nat i))"

definition showExn :: "Exn \<Rightarrow> string" where
  "showExn e = (case e of TypeError m \<Rightarrow> ''TypeError: '' @ m | Thrown m \<Rightarrow> m)"

text \<open>\<open>String.prototype.includes\<close>.\<close>

fun includesStr :: "string \<Rightarrow> string \<Rightarrow> bool" where
  "includesStr [] sub = (sub = [])"
| "includesStr (c # cs) sub = (take (length sub) (c # cs) = sub \<or> includesStr cs sub)"

subsection \<open>Logging and the status snapshot\<close>

definition sendAll :: "Payload \<Rightarrow> Ctrl \<Rightarrow> Ctrl" where
  "sendAll p s = s\<lparr>trace := trace s @ map (\<lambda>c. Send (cid c) p) (filter readyOpen (clients s))\<rparr>"

text \<open>
  \<open>addConsoleMessage\<close>: the push into the storage happens at the call; the sends to the
  observers follow the \<open>await\<close>, after the synchronous rest of the handler, in the order
  of the calls. The trace records them at the call: it keeps the order of the console
  sends among themselves and the order of the other calls among themselves, not the order
  between a console send and a later call of the same handler.
\<close>

definition addConsoleMessage :: "string \<Rightarrow> MsgType \<Rightarrow> Ctrl \<Rightarrow> Ctrl" where
  "addConsoleMessage msg ty s =
     (let consoleMessage = \<lparr>timestamp = nowText s, message = msg, mtype = ty\<rparr>
      in sendAll (ConsoleMsg consoleMessage)
           (s\<lparr>storage := storeAddConsoleMessage consoleMessage (storage s)\<rparr>))"

definition otherPlayers :: "Bot \<Rightarrow> string list" where
  "otherPlayers b = filter (\<lambda>name. name \<noteq> username b) (playerKeys b)"

definition floorPos :: "Vec3 \<Rightarrow> BlockPos" where
  "floorPos p = \<lparr>px = \<lfloor>vx p\<rfloor>, py = \<lfloor>vy p\<rfloor>, pz = \<lfloor>vz p\<rfloor>\<rparr>"

text \<open>The two nested loops over \<open>z\<close> and \<open>x\<close> from -1 to 1 that fill the 3x3 grid.\<close>

definition areaLoop :: "BlockPos \<Rightarrow> int \<Rightarrow> int \<Rightarrow> bool list \<Rightarrow> bool list" where
  "areaLoop home botX botZ a0 =
     foldl (\<lambda>a z. foldl (\<lambda>a x. a[nat ((z + 1) * 3 + (x + 1)) :=
                                   (botX = jsAddInt (px home) x
                                    \<and> botZ = jsAddInt (pz home) z)]) a [-1, 0, 1])
           a0 [-1, 0, 1]"

definition initialStatus :: "Ctrl \<Rightarrow> BotStatus" where
  "initialStatus s =
     \<lparr>connected = (running s \<and> bot s \<noteq> None), activity = ''Idle'',
      position = \<lparr>px = 0, py = 0, pz = 0\<rparr>, time = ''day'', players = [],
      area = replicate 9 False\<rparr>"

definition getBotStatus :: "Ctrl \<Rightarrow> Exn + BotStatus" where
  "getBotStatus s =
     (let status = initialStatus s in
      case bot s of
        None \<Rightarrow> Inr status
      | Some b \<Rightarrow>
          if \<not> running s then Inr status
          else
            let status = (if isSleeping b then status\<lparr>activity := ''Sleeping''\<rparr>
                          else if running s then status\<lparr>activity := ''Wandering in 3x3 area''\<rparr>
                          else status);
                status = (case entity b of
                            Some p \<Rightarrow> status\<lparr>position := floorPos p\<rparr>
                          | None \<Rightarrow> status);
                status = (case timeOfDay b of
                            Some t \<Rightarrow> (if t \<ge> 0 \<and> t < 13000 then status\<lparr>time := ''day''\<rparr>
                                       else status\<lparr>time := ''night''\<rparr>)
                          | None \<Rightarrow> status);
                status = status\<lparr>players := otherPlayers b\<rparr>
            in (case homePosition s of
                  None \<Rightarrow> Inr status
                | Some home \<Rightarrow>
                    (case entity b of
                       None \<Rightarrow> Inl entityUndefined
                     | Some p \<Rightarrow>
                         Inr (status\<lparr>area := areaLoop home \<lfloor>vx p\<rfloor> \<lfloor>vz p\<rfloor> (area status)\<rparr>))))"

definition broadcastStatus :: "Ctrl \<Rightarrow> Res" where
  "broadcastStatus s =
     (case getBotStatus s of
        Inl e \<Rightarrow> Inl (e, s)
      | Inr status \<Rightarrow> Inr (sendAll (StatusMsg status) s))"

subsection \<open>The rest scheduler\<close>

text \<open>\<open>shouldSleep\<close> returns its verdict and logs when the verdict is true.\<close>

definition isNightTime :: "Bot \<Rightarrow> bool" where
  "isNightTime b = (case timeOfDay b of None \<Rightarrow> False | Some t \<Rightarrow> t \<ge> 13000 \<and> t \<le> 23000)"

definition shouldSleep :: "Ctrl \<Rightarrow> bool \<times> Ctrl" where
  "shouldSleep s =
     (case bot s of
        None \<Rightarrow> (False, s)
      | Some b \<Rightarrow>
          (let playersOnline = (length (playerKeys b) > 1)
           in if isNightTime b \<and> playersOnline
              then (True, addConsoleMessage ''Night time detected with players online - should sleep'' Info s)
              else (False, s)))"

definition findAndSleepInBed :: "Ctrl \<Rightarrow> Ctrl" where
  "findAndSleepInBed s =
     (case bot s of
        None \<Rightarrow> s
      | Some b \<Rightarrow>
          (let s = addConsoleMessage ''Looking for a bed to sleep in...'' Info s;
               s = emit FindBlock s
           in case nearBed b of
                None \<Rightarrow> addConsoleMessage ''No bed found nearby'' Warning s
              | Some bed \<Rightarrow>
                  (let s = addConsoleMessage
                             (''Found a bed at X:'' @ showInt (px bed) @ '' Y:'' @ showInt (py bed)
                                @ '' Z:'' @ showInt (pz bed)) Info s;
                       s = emit (SetGoal None) s;
                       s = emit (SetGoal (Some (GoalNear (px bed) (py bed) (pz bed) 1))) s
                   in emit (OnceGoalReached bed) s)))"

text \<open>The \<open>goal_reached\<close> listener of \<open>findAndSleepInBed\<close> and the two ends of \<open>sleep\<close>.\<close>

definition onGoalReached :: "BlockPos \<Rightarrow> Ctrl \<Rightarrow> Ctrl" where
  "onGoalReached bed s =
     (let s = addConsoleMessage ''Reached the bed, attempting to sleep'' Info s
      in if bot s \<noteq> None then emit (Sleep bed) s else s)"

definition onSleepResolved :: "Ctrl \<Rightarrow> Res" where
  "onSleepResolved s = broadcastStatus (addConsoleMessage ''Bot is now sleeping in bed'' Info s)"

definition onSleepRejected :: "string \<Rightarrow> Ctrl \<Rightarrow> Ctrl" where
  "onSleepRejected err s = addConsoleMessage (''Failed to sleep in bed: '' @ err) Error s"

text \<open>The local \<open>attemptWakeUp\<close> of \<open>checkSleepConditions\<close>, its rejection and its retry timer.\<close>

definition attemptWakeUp :: "Ctrl \<Rightarrow> Ctrl" where
  "attemptWakeUp s =
     (case bot s of
        None \<Rightarrow> s
      | Some b \<Rightarrow>
          if \<not> isSleeping b then s
          else emit (Wake CheckWake) (addConsoleMessage ''Attempting to wake up bot...'' Info s))"

definition onCheckWakeRejected :: "string \<Rightarrow> Ctrl \<Rightarrow> Ctrl" where
  "onCheckWakeRejected err s =
     emit (SetTimeout 1000 CheckWakeRetry)
       (addConsoleMessage (''Error during wake attempt: '' @ err) Error s)"

definition checkWakeRetry :: "Ctrl \<Rightarrow> Ctrl" where
  "checkWakeRetry s =
     (case bot s of
        None \<Rightarrow> s
      | Some b \<Rightarrow>
          if isSleeping b
          then attemptWakeUp (addConsoleMessage ''Bot still sleeping, retrying wake up...'' Warning s)
          else s)"

definition onStandardWakeRejected :: "string \<Rightarrow> Ctrl \<Rightarrow> Ctrl" where
  "onStandardWakeRejected err s = addConsoleMessage (''Error waking up: '' @ err) Error s"

definition checkSleepConditions :: "Ctrl \<Rightarrow> Ctrl" where
  "checkSleepConditions s =
     (case bot s of
        None \<Rightarrow> s
      | Some b \<Rightarrow>
          if \<not> running s then s
          else
            let isInBed = isSleeping b;
                playersOnline = (length (otherPlayers b) > 0);
                night = isNightTime b
            in if isInBed \<and> \<not> playersOnline then
                 attemptWakeUp
                   (addConsoleMessage ''WAKE UP TRIGGER: No players online while sleeping!'' Warning s)
               else if isInBed \<and> \<not> night then
                 emit (Wake StandardWake)
                   (addConsoleMessage ''Daytime detected - waking up from bed'' Info s)
               else if \<not> isInBed \<and> night \<and> playersOnline then findAndSleepInBed s
               else s)"

text \<open>\<open>forceWakeUpNow\<close>, its local \<open>attemptWake\<close> and the two ends of that \<open>wake\<close>.\<close>

definition attemptWake :: "nat \<Rightarrow> Ctrl \<Rightarrow> Ctrl" where
  "attemptWake retryCount s =
     (case bot s of
        None \<Rightarrow> s
      | Some b \<Rightarrow> if \<not> isSleeping b then s else emit (Wake (EmergencyWake retryCount)) s)"

definition onEmergencyWakeResolved :: "Ctrl \<Rightarrow> Res" where
  "onEmergencyWakeResolved s =
     broadcastStatus (addConsoleMessage ''Successfully woke up bot from emergency wake'' Info s)"

definition onEmergencyWakeRejected :: "nat \<Rightarrow> string \<Rightarrow> Ctrl \<Rightarrow> Ctrl" where
  "onEmergencyWakeRejected retryCount err s =
     (let s = addConsoleMessage
                (''Failed to wake bot (attempt '' @ showNat (retryCount + 1) @ ''): '' @ err) Error s
      in if retryCount < 5 then
           (let delay = 500 + retryCount * 300;
                s = addConsoleMessage (''Retrying wake in '' @ showNat delay @ ''ms...'') Warning s
            in emit (SetTimeout (real delay) (EmergencyWakeRetry (retryCount + 1))) s)
         else s)"

definition forceWakeUpNow :: "Ctrl \<Rightarrow> Ctrl" where
  "forceWakeUpNow s =
     (case bot s of
        None \<Rightarrow> s
      | Some b \<Rightarrow>
          if \<not> running s then s
          else if isSleeping b then
            (let s = addConsoleMessage
                       (''FORCE WAKE CHECK: Bot is sleeping. Players online: ''
                          @ showNat (length (otherPlayers b))) Warning s
             in if length (otherPlayers b) = 0 then
                  attemptWake 0 (addConsoleMessage ''EMERGENCY WAKE UP NOW - No players online!'' Warning s)
                else s)
          else s)"

subsection \<open>The area scheduler\<close>

text \<open>The three doubles \<open>Math.random()\<close> returns in one wander step, each in \<open>[0, 1)\<close>.\<close>

record Draws =
  drawX :: real
  drawZ :: real
  drawWait :: real

definition enforceAreaBoundaries :: "Ctrl \<Rightarrow> Res" where
  "enforceAreaBoundaries s =
     (case bot s of
        None \<Rightarrow> Inr s
      | Some b \<Rightarrow>
          (case homePosition s of
             None \<Rightarrow> Inr s
           | Some home \<Rightarrow>
               if \<not> running s then Inr s
               else
                 (case entity b of
                    None \<Rightarrow> Inl (entityUndefined, s)
                  | Some currentPos \<Rightarrow>
                      (let distanceFromHome =
                             max \<bar>jsSubInt \<lfloor>vx currentPos\<rfloor> (px home)\<bar>
                                 \<bar>jsSubInt \<lfloor>vz currentPos\<rfloor> (pz home)\<bar>
                       in if distanceFromHome > 1 then
                            (let s = addConsoleMessage
                                       ''Bot escaped 3x3 area! Returning to home position'' Warning s;
                                 s = emit (SetGoal None) s
                             in Inr (emit (SetGoal (Some (GoalBlock (px home) (py home) (pz home)))) s))
                          else Inr s))))"

definition boundaryCheckTick :: "Ctrl \<Rightarrow> Res" where
  "boundaryCheckTick s =
     (if \<not> running s then Inr (emit (ClearInterval BoundaryCheck) s)
      else enforceAreaBoundaries s)"

definition moveDirectlyTry :: "Bot \<Rightarrow> int \<Rightarrow> int \<Rightarrow> int \<Rightarrow> Ctrl \<Rightarrow> Res" where
  "moveDirectlyTry b x y z s =
     (let s = emit (SetGoal None) s
      in case entity b of
           None \<Rightarrow> Inl (entityUndefined, s)
         | Some currentPos \<Rightarrow>
             (let dx = jsSubInt x \<lfloor>vx currentPos\<rfloor>;
                  dz = jsSubInt z \<lfloor>vz currentPos\<rfloor>;
                  s = (if dx > 0 then
                         emit (LookAt (currentPos\<lparr>vx := jsAdd (vx currentPos) 1\<rparr>))
                           (emit (SetControlState True) s)
                       else if dx < 0 then
                         emit (LookAt (currentPos\<lparr>vx := jsSub (vx currentPos) 1\<rparr>))
                           (emit (SetControlState True) s)
                       else if dz > 0 then
                         emit (LookAt (currentPos\<lparr>vz := jsAdd (vz currentPos) 1\<rparr>))
                           (emit (SetControlState True) s)
                       else if dz < 0 then
                         emit (LookAt (currentPos\<lparr>vz := jsSub (vz currentPos) 1\<rparr>))
                           (emit (SetControlState True) s)
                       else s);
                  s = emit (SetTimeout 1000 ReleaseForward) s
              in Inr (addConsoleMessage
                        (''Moving directly to X:'' @ showInt x @ '' Y:'' @ showInt y
                           @ '' Z:'' @ showInt z) Info s)))"

definition moveDirectlyCatch :: "Exn \<Rightarrow> Ctrl \<Rightarrow> Res" where
  "moveDirectlyCatch err s =
     (let s = addConsoleMessage (''Error during direct movement: '' @ showExn err) Error s
      in Inr (if bot s \<noteq> None then emit ClearControlStates s else s))"

definition moveDirectly :: "int \<Rightarrow> int \<Rightarrow> int \<Rightarrow> Ctrl \<Rightarrow> Res" where
  "moveDirectly x y z s =
     (case bot s of
        None \<Rightarrow> Inr s
      | Some b \<Rightarrow>
          if \<not> running s then Inr s
          else tryCatch (moveDirectlyTry b x y z s) moveDirectlyCatch)"

definition releaseForward :: "Ctrl \<Rightarrow> Ctrl" where
  "releaseForward s = (if bot s \<noteq> None then emit (SetControlState False) s else s)"

text \<open>
  \<open>Math.floor(Math.random() * 3) - 1\<close> and \<open>5000 + Math.random() * 3000\<close>, as functions
  of the double drawn, in double arithmetic (the floor of the product is 0, 1 or 2, from
  which 1 is subtracted exactly).
\<close>

definition randomOffset :: "real \<Rightarrow> int" where
  "randomOffset r = \<lfloor>jsMul r 3\<rfloor> - 1"

definition randomWait :: "real \<Rightarrow> real" where
  "randomWait r = jsAdd 5000 (jsMul r 3000)"

definition armWanderTimer :: "real \<Rightarrow> Ctrl \<Rightarrow> Ctrl" where
  "armWanderTimer delay s =
     (let s = (if timeoutId s \<noteq> None then emit (ClearTimeout WanderStep) s else s)
      in (emit (SetTimeout delay WanderStep) s)\<lparr>timeoutId := Some (loopMs s)\<rparr>)"

definition wanderTry :: "int \<Rightarrow> int \<Rightarrow> int \<Rightarrow> real \<Rightarrow> Ctrl \<Rightarrow> Res" where
  "wanderTry targetX targetY targetZ r s =
     andThen
       (moveDirectly targetX targetY targetZ
          (addConsoleMessage
             (''Wandering to position X:'' @ showInt targetX @ '' Y:'' @ showInt targetY
                @ '' Z:'' @ showInt targetZ) Info s))
       (\<lambda>s. Inr (armWanderTimer (randomWait r) s))"

definition wanderCatch :: "Exn \<Rightarrow> Ctrl \<Rightarrow> Res" where
  "wanderCatch err s =
     Inr (armWanderTimer 3000
            (addConsoleMessage (''Error during wandering: '' @ showExn err) Error s))"

definition wanderStep :: "Draws \<Rightarrow> Ctrl \<Rightarrow> Res" where
  "wanderStep d s =
     (case homePosition s of
        None \<Rightarrow> Inr (emit (ClearInterval BoundaryCheck) s)
      | Some home \<Rightarrow>
          if bot s = None \<or> \<not> running s then Inr (emit (ClearInterval BoundaryCheck) s)
          else
            (case shouldSleep s of
               (True, s) \<Rightarrow> Inr (findAndSleepInBed s)
             | (False, s) \<Rightarrow>
                 (let offsetX = randomOffset (drawX d);
                      offsetZ = randomOffset (drawZ d);
                      targetX = jsAddInt (px home) offsetX;
                      targetY = py home;
                      targetZ = jsAddInt (pz home) offsetZ
                  in tryCatch (wanderTry targetX targetY targetZ (drawWait d) s) wanderCatch)))"

text \<open>
  The watchdog subtracts the \<open>_idleStart\<close> of the wander timer, a reading of the event
  loop's clock, from \<open>Date.now()\<close>, a reading of the wall clock; with no timer it takes
  10000.
\<close>

definition watchdogTick :: "Draws \<Rightarrow> Ctrl \<Rightarrow> Res" where
  "watchdogTick d s =
     (case bot s of
        None \<Rightarrow> Inr s
      | Some b \<Rightarrow>
          if \<not> running s \<or> isSleeping b then Inr s
          else
            (case shouldSleep s of
               (True, s) \<Rightarrow> Inr s
             | (False, s) \<Rightarrow>
                 (let timeSinceLastAction =
                        (case timeoutId s of Some idleStart \<Rightarrow> jsSub (nowMs s) idleStart | None \<Rightarrow> 10000)
                  in if timeSinceLastAction > 8000 then
                       wanderStep d
                         (addConsoleMessage
                            ''No movement detected for a while, forcing new wander step'' Info s)
                     else Inr s)))"

definition startWandering :: "Draws \<Rightarrow> Ctrl \<Rightarrow> Res" where
  "startWandering d s =
     (if bot s = None \<or> homePosition s = None \<or> \<not> running s then Inr s
      else
        (let s = addConsoleMessage ''Starting wandering behavior in 3x3 area'' Info s;
             s = emit SetMovements s;
             s = emit (SetInterval 1000 BoundaryCheck) s
         in andThen (wanderStep d s) (\<lambda>s. Inr (emit (SetInterval 10000 Watchdog) s))))"

subsection \<open>The connection lifecycle\<close>

definition placeholderAddress :: string where
  "placeholderAddress = ''mc.example.com''"

text \<open>The two messages of a refused start.\<close>

definition invalidAddressMessage :: string where
  "invalidAddressMessage =
     ''ERROR: Invalid server address. Please update settings with a real Minecraft server address.''"

definition placeholderMessage :: string where
  "placeholderMessage =
     ''The current address '' @ [CHR 0x27] @ ''mc.example.com'' @ [CHR 0x27]
       @ '' is just a placeholder and doesn'' @ [CHR 0x27] @ ''t exist.''"

text \<open>
  The \<open>try\<close> block of \<open>start\<close>. \<open>created\<close> is what \<open>mineflayer.createBot\<close> does at this
  call: it throws (\<open>Inl\<close>) or returns the session object (\<open>Inr\<close>). The registrations
  of listeners leave no trace: the listeners are the functions below. The one \<open>await\<close>
  of \<open>start\<close> is on the in-memory storage, whose promise is already resolved: no
  listener or timer callback runs between the check of \<open>running\<close> and the rest of the
  body, so \<open>start\<close> is one step.
\<close>

definition startTry :: "string + Bot \<Rightarrow> BotSettings \<Rightarrow> Ctrl \<Rightarrow> Res" where
  "startTry created cfg s =
     (let s = addConsoleMessage (''Starting bot with username '' @ botUsername cfg) Info s;
          s = addConsoleMessage (''Connecting to server '' @ serverAddress cfg @ ''...'') Info s;
          s = emit (SetTimeout 10000 ConnectionTimeout) s;
          s = emit (CreateBot (serverAddress cfg) (botUsername cfg)) s
      in case created of
           Inl err \<Rightarrow> Inl (Thrown err, s)
         | Inr b \<Rightarrow>
             (let s = s\<lparr>bot := Some b\<rparr>;
                  s = emit LoadPlugin s
              in Inr (emit (SetInterval 2000 WakeupInterval) s)))"

definition startCatch :: "Exn \<Rightarrow> Ctrl \<Rightarrow> Res" where
  "startCatch err s =
     broadcastStatus
       ((addConsoleMessage (''CRITICAL ERROR STARTING BOT: '' @ showExn err) Error s)
          \<lparr>running := False\<rparr>)"

definition start :: "string + Bot \<Rightarrow> Ctrl \<Rightarrow> Res" where
  "start created s =
     (if running s then Inr (addConsoleMessage ''Bot is already running'' Warning s)
      else
        (let cfg = botSettings (storage s);
             s = s\<lparr>settings := Some cfg\<rparr>
         in if serverAddress cfg = [] \<or> serverAddress cfg = placeholderAddress then
              (let s = addConsoleMessage invalidAddressMessage Error s;
                   s = addConsoleMessage placeholderMessage Error s
               in broadcastStatus s)
            else
              andThen (broadcastStatus (s\<lparr>running := True\<rparr>))
                (\<lambda>s. tryCatch (startTry created cfg s) startCatch)))"

text \<open>The callback of the 10 second connection timer.\<close>

definition connectionTimeoutFired :: "Ctrl \<Rightarrow> Res" where
  "connectionTimeoutFired s =
     (if running s \<and> (case bot s of None \<Rightarrow> True | Some b \<Rightarrow> entity b = None) then
        (let target = (case settings s of
                         None \<Rightarrow> ''unknown server''
                       | Some cfg \<Rightarrow> if serverAddress cfg = [] then ''unknown server''
                                      else serverAddress cfg);
             s = addConsoleMessage (''CONNECTION FAILED: Could not connect to '' @ target) Error s;
             s = addConsoleMessage
                   ''Please check the server address and make sure the Minecraft server is online.''
                   Error s
         in broadcastStatus (s\<lparr>running := False, bot := None\<rparr>))
      else Inr s)"

text \<open>
  The two \<open>error\<close> listeners, in the order of their registration: the one of \<open>start\<close>,
  then the one of \<open>setupEventHandlers\<close>.
\<close>

definition onConnectionError :: "string \<Rightarrow> Ctrl \<Rightarrow> Res" where
  "onConnectionError errMessage s =
     (let s = emit (ClearTimeout ConnectionTimeout) s;
          s = addConsoleMessage (''CONNECTION ERROR: '' @ errMessage) Error s;
          address = (case settings s of None \<Rightarrow> ''undefined'' | Some cfg \<Rightarrow> serverAddress cfg);
          s = (if includesStr errMessage ''ENOTFOUND'' then
                 addConsoleMessage ''Please update settings with a valid Minecraft server address.'' Error
                   (addConsoleMessage
                      (''Server '' @ [CHR 0x27] @ address @ [CHR 0x27]
                         @ '' does not exist or cannot be reached.'') Error s)
               else if includesStr errMessage ''ETIMEDOUT'' then
                 addConsoleMessage ''Connection timed out. Server may be offline or unreachable.'' Error s
               else s)
      in broadcastStatus (s\<lparr>running := False, bot := None\<rparr>))"

definition onBotError :: "string \<Rightarrow> Ctrl \<Rightarrow> Ctrl" where
  "onBotError errMessage s = addConsoleMessage (''Bot error: '' @ errMessage) Error s"

definition onError :: "string \<Rightarrow> Ctrl \<Rightarrow> Res" where
  "onError errMessage s =
     andThen (onConnectionError errMessage s) (\<lambda>s. Inr (onBotError errMessage s))"

definition onKicked :: "string \<Rightarrow> Ctrl \<Rightarrow> Res" where
  "onKicked reason s =
     broadcastStatus
       ((addConsoleMessage (''Bot was kicked: '' @ reason) Error s)\<lparr>running := False, bot := None\<rparr>)"

text \<open>
  The two \<open>spawn\<close> listeners: the one of \<open>setupEventHandlers\<close>, then the one of
  \<open>start\<close> that disarms the connection timer.
\<close>

definition onSpawn :: "Draws \<Rightarrow> Ctrl \<Rightarrow> Res" where
  "onSpawn d s =
     (let s = addConsoleMessage ''Bot has spawned in the world'' Info s
      in case settings s of
           None \<Rightarrow>
             Inl (TypeError (''Cannot read properties of null (reading '' @ [CHR 0x27] @ ''posX''
                               @ [CHR 0x27] @ '')''), s)
         | Some cfg \<Rightarrow>
             (let home = \<lparr>px = posX cfg, py = posY cfg, pz = posZ cfg\<rparr>;
                  s = s\<lparr>homePosition := Some home\<rparr>;
                  s = addConsoleMessage
                        (''Setting home position to X:'' @ showInt (px home) @ '' Y:''
                           @ showInt (py home) @ '' Z:'' @ showInt (pz home)) Info s
              in andThen (broadcastStatus s)
                   (\<lambda>s. andThen (startWandering d (checkSleepConditions s))
                      (\<lambda>s. Inr (emit (ClearTimeout ConnectionTimeout)
                                  (emit (SetTimeout 5000 SpawnRecheck) s))))))"

definition spawnRecheck :: "Ctrl \<Rightarrow> Ctrl" where
  "spawnRecheck s = (if bot s \<noteq> None \<and> running s then checkSleepConditions s else s)"

text \<open>The callback of the 2 second failsafe interval armed by \<open>start\<close>.\<close>

definition wakeupIntervalTick :: "Ctrl \<Rightarrow> Ctrl" where
  "wakeupIntervalTick s =
     (if \<not> running s then emit (ClearInterval WakeupInterval) s
      else
        (case bot s of
           None \<Rightarrow> s
         | Some b \<Rightarrow> checkSleepConditions (if isSleeping b then forceWakeUpNow s else s)))"

text \<open>
  \<open>stop\<close>. \<open>quitThrows\<close> is what \<open>bot.quit()\<close> does at this call. \<open>stopBeforeQuit\<close>
  is the part of the body before the session is asked to close, \<open>stopQuit\<close> the inner
  \<open>try\<close> around \<open>quit\<close>, \<open>stopAfterQuit\<close> the rest of the outer \<open>try\<close> block.
\<close>

definition stopBeforeQuit :: "Ctrl \<Rightarrow> Ctrl" where
  "stopBeforeQuit s =
     (let s = (if timeoutId s \<noteq> None
               then (emit (ClearTimeout WanderStep) s)\<lparr>timeoutId := None\<rparr> else s);
          s = addConsoleMessage ''Stopping bot and disconnecting from server...'' Info s
      in s\<lparr>running := False\<rparr>)"

definition stopQuit :: "string option \<Rightarrow> Ctrl \<Rightarrow> Res" where
  "stopQuit quitThrows s =
     (if bot s \<noteq> None then
        tryCatch
          (let s = emit Quit s
           in case quitThrows of None \<Rightarrow> Inr s | Some err \<Rightarrow> Inl (Thrown err, s))
          (\<lambda>err s. Inr (addConsoleMessage (''Error during bot.quit(): '' @ showExn err) Error s))
      else Inr s)"

definition stopAfterQuit :: "Ctrl \<Rightarrow> Res" where
  "stopAfterQuit s =
     andThen (broadcastStatus (s\<lparr>bot := None, homePosition := None\<rparr>))
       (\<lambda>s. Inr (addConsoleMessage ''Bot stopped successfully'' Info s))"

definition stopCatch :: "Exn \<Rightarrow> Ctrl \<Rightarrow> Res" where
  "stopCatch err s =
     broadcastStatus
       ((addConsoleMessage (''Error during bot stop: '' @ showExn err) Error s)
          \<lparr>running := False, bot := None\<rparr>)"

definition stop :: "string option \<Rightarrow> Ctrl \<Rightarrow> Res" where
  "stop quitThrows s =
     tryCatch
       (if \<not> running s then Inr (addConsoleMessage ''Bot is already stopped'' Info s)
        else andThen (stopQuit quitThrows (stopBeforeQuit s)) stopAfterQuit)
       stopCatch"

subsection \<open>The session's events\<close>

definition onPlayerJoined :: "string \<Rightarrow> Ctrl \<Rightarrow> Res" where
  "onPlayerJoined name s =
     andThen (broadcastStatus (addConsoleMessage (''Player '' @ name @ '' joined the game'') Info s))
       (\<lambda>s. Inr (checkSleepConditions s))"

definition onPlayerLeft :: "string \<Rightarrow> Ctrl \<Rightarrow> Res" where
  "onPlayerLeft name s =
     andThen (broadcastStatus (addConsoleMessage (''Player '' @ name @ '' left the game'') Info s))
       (\<lambda>s. case bot s of
               None \<Rightarrow> Inr s
             | Some b \<Rightarrow>
                 (let s = (if length (otherPlayers b) = 0 then
                             (let s = addConsoleMessage
                                        ''CRITICAL EVENT: Last player left the game - checking sleep status''
                                        Warning s;
                                  s = forceWakeUpNow s;
                                  s = emit (SetTimeout 500 ForceWakeUp) s;
                                  s = emit (SetTimeout 1500 ForceWakeUp) s
                              in emit (SetTimeout 3000 ForceWakeUp) s)
                           else s)
                  in Inr (checkSleepConditions s)))"

definition onTime :: "Ctrl \<Rightarrow> Res" where
  "onTime s = andThen (broadcastStatus s) (\<lambda>s. Inr (checkSleepConditions s))"

definition onMove :: "Ctrl \<Rightarrow> Res" where
  "onMove s = broadcastStatus s"

subsection \<open>The other public methods\<close>

definition updateSettings :: "BotSettings \<Rightarrow> Ctrl \<Rightarrow> Ctrl" where
  "updateSettings cfg s =
     (let s = s\<lparr>settings := Some cfg, storage := storeUpdateBotSettings cfg (storage s)\<rparr>;
          s = addConsoleMessage ''Bot settings updated'' Info s
      in if running s \<and> homePosition s \<noteq> None then
           addConsoleMessage
             (''Home position updated to X:'' @ showInt (posX cfg) @ '' Y:'' @ showInt (posY cfg)
                @ '' Z:'' @ showInt (posZ cfg)) Info
             (s\<lparr>homePosition := Some \<lparr>px = posX cfg, py = posY cfg, pz = posZ cfg\<rparr>\<rparr>)
         else s)"

definition clearConsole :: "Ctrl \<Rightarrow> Ctrl" where
  "clearConsole s =
     addConsoleMessage ''Console cleared'' Info
       (sendAll ConsoleClearMsg (s\<lparr>storage := storeClearConsoleMessages (storage s)\<rparr>))"

definition addClient :: "Client \<Rightarrow> Ctrl \<Rightarrow> Res" where
  "addClient c s =
     broadcastStatus
       (if cid c \<in> set (map cid (clients s)) then s else s\<lparr>clients := clients s @ [c]\<rparr>)"

definition removeClient :: "nat \<Rightarrow> Ctrl \<Rightarrow> Ctrl" where
  "removeClient i s = s\<lparr>clients := filter (\<lambda>c. cid c \<noteq> i) (clients s)\<rparr>"

text \<open>The controller as constructed, and after \<open>initialize\<close> has run.\<close>

definition newCtrl :: "string \<Rightarrow> real \<Rightarrow> real \<Rightarrow> Ctrl" where
  "newCtrl clockText clockMs loopClock =
     \<lparr>bot = None, settings = None, running = False, homePosition = None, clients = [],
      timeoutId = None, storage = newMemStorage, trace = [], nowText = clockText,
      nowMs = clockMs, loopMs = loopClock\<rparr>"

definition initialize :: "Ctrl \<Rightarrow> Ctrl" where
  "initialize s =
     addConsoleMessage ''Bot controller initialized'' Info
       (s\<lparr>settings := Some (botSettings (storage s))\<rparr>)"

subsection \<open>The controller as a transition system\<close>

text \<open>
  Everything that can run between two suspension points: a call of a public method, a
  listener of the session, a callback of a timer or of a promise, and a change the
  environment makes (the session's observable fields, the wall clock, an observer's
  socket). Timers are not cancelled by \<open>stop\<close> and listeners of an old session are
  not removed, so every callback may run in every state.
\<close>

datatype Event =
    Start "string + Bot"
  | Stop "string option"
  | UpdateSettings BotSettings
  | ClearConsole
  | AddClient Client
  | RemoveClient nat
  | ConnectionTimeoutFired
  | ErrorEvent string
  | KickedEvent string
  | SpawnEvent Draws
  | PlayerJoinedEvent string
  | PlayerLeftEvent string
  | TimeEvent
  | MoveEvent
  | GoalReachedEvent BlockPos
  | SleepResolved
  | SleepRejected string
  | CheckWakeRejected string
  | CheckWakeRetryFired
  | StandardWakeRejected string
  | EmergencyWakeResolved
  | EmergencyWakeRejected nat string
  | EmergencyWakeRetryFired nat
  | ForceWakeUpFired
  | WakeupIntervalFired
  | SpawnRecheckFired
  | BoundaryCheckFired
  | ReleaseForwardFired
  | WanderStepFired Draws
  | WatchdogFired Draws
  | SessionChanged Bot
  | ClockChanged string real real
  | SocketChanged nat bool

definition handle :: "Event \<Rightarrow> Ctrl \<Rightarrow> Res" where
  "handle ev s =
     (case ev of
        Start created \<Rightarrow> start created s
      | Stop quitThrows \<Rightarrow> stop quitThrows s
      | UpdateSettings cfg \<Rightarrow> Inr (updateSettings cfg s)
      | ClearConsole \<Rightarrow> Inr (clearConsole s)
      | AddClient c \<Rightarrow> addClient c s
      | RemoveClient i \<Rightarrow> Inr (removeClient i s)
      | ConnectionTimeoutFired \<Rightarrow> connectionTimeoutFired s
      | ErrorEvent m \<Rightarrow> onError m s
      | KickedEvent reason \<Rightarrow> onKicked reason s
      | SpawnEvent d \<Rightarrow> onSpawn d s
      | PlayerJoinedEvent name \<Rightarrow> onPlayerJoined name s
      | PlayerLeftEvent name \<Rightarrow> onPlayerLeft name s
      | TimeEvent \<Rightarrow> onTime s
      | MoveEvent \<Rightarrow> onMove s
      | GoalReachedEvent bed \<Rightarrow> Inr (onGoalReached bed s)
      | SleepResolved \<Rightarrow> onSleepResolved s
      | SleepRejected m \<Rightarrow> Inr (onSleepRejected m s)
      | CheckWakeRejected m \<Rightarrow> Inr (onCheckWakeRejected m s)
      | CheckWakeRetryFired \<Rightarrow> Inr (checkWakeRetry s)
      | StandardWakeRejected m \<Rightarrow> Inr (onStandardWakeRejected m s)
      | EmergencyWakeResolved \<Rightarrow> onEmergencyWakeResolved s
      | EmergencyWakeRejected n m \<Rightarrow> Inr (onEmergencyWakeRejected n m s)
      | EmergencyWakeRetryFired n \<Rightarrow> Inr (attemptWake n s)
      | ForceWakeUpFired \<Rightarrow> Inr (forceWakeUpNow s)
      | WakeupIntervalFired \<Rightarrow> Inr (wakeupIntervalTick s)
      | SpawnRecheckFired \<Rightarrow> Inr (spawnRecheck s)
      | BoundaryCheckFired \<Rightarrow> boundaryCheckTick s
      | ReleaseForwardFired \<Rightarrow> Inr (releaseForward s)
      | WanderStepFired d \<Rightarrow> wanderStep d s
      | WatchdogFired d \<Rightarrow> watchdogTick d s
      | SessionChanged b \<Rightarrow> Inr (if bot s \<noteq> None then s\<lparr>bot := Some b\<rparr> else s)
      | ClockChanged t ms lm \<Rightarrow> Inr (s\<lparr>nowText := t, nowMs := ms, loopMs := lm\<rparr>)
      | SocketChanged i opn \<Rightarrow>
          Inr (s\<lparr>clients := map (\<lambda>c. if cid c = i then c\<lparr>readyOpen := opn\<rparr> else c) (clients s)\<rparr>))"

text \<open>
  The state an event leaves behind, whether its handler returned or threw, and the run
  of a list of events from a state.
\<close>

definition step :: "Event \<Rightarrow> Ctrl \<Rightarrow> Ctrl" where
  "step ev s = stateOf (handle ev s)"

definition run :: "Event list \<Rightarrow> Ctrl \<Rightarrow> Ctrl" where
  "run evs s = foldl (\<lambda>acc ev. step ev acc) s evs"

inductive reachable :: "Ctrl \<Rightarrow> bool" where
  reach_init: "reachable (initialize (newCtrl clockText clockMs loopClock))"
| reach_step: "reachable s \<Longrightarrow> reachable (step ev s)"

text \<open>The calls of a trace other than the sends to the observers, and the part of a
  trace that a handler added.\<close>

definition isSend :: "Effect \<Rightarrow> bool" where
  "isSend e = (case e of Send i p \<Rightarrow> True | _ \<Rightarrow> False)"

definition newCalls :: "Ctrl \<Rightarrow> Ctrl \<Rightarrow> Effect list" where
  "newCalls s s' = filter (\<lambda>e. \<not> isSend e) (drop (length (trace s)) (trace s'))"

definition sessionInvariant :: "Ctrl \<Rightarrow> bool" where
  "sessionInvariant s = (bot s \<noteq> None \<longrightarrow> running s)"

text \<open>
  \<open>keeps s s'\<close>: the step from \<open>s\<close> to \<open>s'\<close> changed at most the console log, the
  trace and the wander timer.
\<close>

definition keeps :: "Ctrl \<Rightarrow> Ctrl \<Rightarrow> bool" where
  "keeps s s' =
     (bot s' = bot s \<and> running s' = running s \<and> homePosition s' = homePosition s
      \<and> settings s' = settings s \<and> clients s' = clients s \<and> nowText s' = nowText s
      \<and> nowMs s' = nowMs s \<and> loopMs s' = loopMs s
      \<and> botSettings (storage s') = botSettings (storage s))"

text \<open>The snapshot of a controller that is not running or has no session.\<close>

definition idleStatus :: BotStatus where
  "idleStatus = \<lparr>connected = False, activity = ''Idle'', position = \<lparr>px = 0, py = 0, pz = 0\<rparr>,
      time = ''day'', players = [], area = replicate 9 False\<rparr>"

subsection \<open>Concrete states\<close>

text \<open>
  A session just spawned at its home block in daytime with only the agent in the player
  table, valid settings, and a controller that has started, spawned and has one open
  observer. They serve as inputs where a property is evaluated.
\<close>

definition exampleBot :: Bot where
  "exampleBot =
     \<lparr>username = ''MinecraftBot'', entity = Some \<lparr>vx = 0, vy = 64, vz = 0\<rparr>,
      isSleeping = False, timeOfDay = Some 1000, playerKeys = [''MinecraftBot''],
      nearBed = None\<rparr>"

definition exampleSettings :: BotSettings where
  "exampleSettings =
     \<lparr>serverAddress = ''play.example.org'', botUsername = ''MinecraftBot'',
      posX = 0, posY = 64, posZ = 0\<rparr>"

definition exampleDraws :: Draws where
  "exampleDraws = \<lparr>drawX = 0, drawZ = 1 / 2, drawWait = 1 / 2\<rparr>"

definition initialCtrl :: Ctrl where
  "initialCtrl = initialize (newCtrl ''12:00:00'' 1700000000000 5000)"

definition activeCtrl :: "Bot \<Rightarrow> Ctrl" where
  "activeCtrl b =
     initialCtrl\<lparr>bot := Some b, settings := Some exampleSettings, running := True,
                 homePosition := Some \<lparr>px = 0, py = 64, pz = 0\<rparr>,
                 clients := [\<lparr>cid = 1, readyOpen = True\<rparr>]\<rparr>"

text \<open>
  A run of the controller: valid settings are stored, the controller starts, the session
  spawns; then the session reports the entity five blocks east of home (pushed there by
  an external force).
\<close>

definition spawnedCtrl :: Ctrl where
  "spawnedCtrl =
     run [UpdateSettings exampleSettings, Start (Inr exampleBot), SpawnEvent exampleDraws]
       initialCtrl"

definition pushedCtrl :: Ctrl where
  "pushedCtrl =
     step (SessionChanged (exampleBot\<lparr>entity := Some \<lparr>vx = 5, vy = 64, vz = 0\<rparr>\<rparr>)) spawnedCtrl"

text \<open>
  Two more continuations of that run: the session reports the agent resting at night
  with another participant present; and the session reports the agent resting alone
  late in the cycle.
\<close>

definition restingAtNightCtrl :: Ctrl where
  "restingAtNightCtrl =
     step (SessionChanged (exampleBot\<lparr>isSleeping := True, timeOfDay := Some 14000,
                                       playerKeys := [''MinecraftBot'', ''alice'']\<rparr>)) spawnedCtrl"

definition restingAloneCtrl :: Ctrl where
  "restingAloneCtrl =
     step (SessionChanged (exampleBot\<lparr>isSleeping := True, timeOfDay := Some 23500\<rparr>)) spawnedCtrl"

text \<open>A storage whose console log is full, and two messages.\<close>

definition oldMessage :: ConsoleMessage where
  "oldMessage = \<lparr>timestamp = ''12:00:00'', message = ''Bot controller initialized'', mtype = Info\<rparr>"

definition newMessage :: ConsoleMessage where
  "newMessage = \<lparr>timestamp = ''12:00:01'', message = ''Bot is already running'', mtype = Warning\<rparr>"

definition fullStorage :: MemStorage where
  "fullStorage = newMemStorage\<lparr>consoleMessages := replicate 100 oldMessage\<rparr>"

section \<open>Rounding to a double\<close>

lemma roundHalfEven_of_int [simp]: "roundHalfEven (of_int n) = n"
  by (simp add: roundHalfEven_def)

lemma roundHalfEven_upper: "of_int (roundHalfEven y) \<le> y + 1 / 2"
  unfolding roundHalfEven_def Let_def by (auto simp add: not_less) linarith+

lemma roundHalfEven_lower: "y - 1 / 2 \<le> of_int (roundHalfEven y)"
  unfolding roundHalfEven_def Let_def by (auto simp add: not_less) linarith+

lemma roundHalfEven_le: "y \<le> of_int N \<Longrightarrow> roundHalfEven y \<le> N"
proof -
  assume a: "y \<le> of_int N"
  have "real_of_int (roundHalfEven y) \<le> y + 1 / 2" by (rule roundHalfEven_upper)
  with a have "real_of_int (roundHalfEven y) < of_int N + 1" by linarith
  then have "real_of_int (roundHalfEven y) < of_int (N + 1)" by simp
  then have "roundHalfEven y < N + 1" by (simp only: of_int_less_iff)
  then show ?thesis by simp
qed

lemma roundHalfEven_ge: "of_int N \<le> y \<Longrightarrow> N \<le> roundHalfEven y"
proof -
  assume a: "of_int N \<le> y"
  have "y - 1 / 2 \<le> real_of_int (roundHalfEven y)" by (rule roundHalfEven_lower)
  with a have "of_int N - 1 < real_of_int (roundHalfEven y)" by linarith
  then have "real_of_int (N - 1) < real_of_int (roundHalfEven y)" by simp
  then have "N - 1 < roundHalfEven y" by (simp only: of_int_less_iff)
  then show ?thesis by simp
qed

lemma ulp_pos [simp]: "0 < ulp x"
  by (simp add: ulp_def)

lemma ulpExp_binade:
  assumes "2 powr of_int e \<le> \<bar>x\<bar>" and "\<bar>x\<bar> < 2 powr of_int (e + 1)" and "- 1022 \<le> e"
  shows "ulpExp x = e - 52"
proof -
  have pos: "0 < \<bar>x\<bar>" using assms(1) by (smt (verit) powr_gt_zero)
  have "\<lfloor>log 2 \<bar>x\<bar>\<rfloor> = e"
    using assms(1,2) floor_log_eq_powr_iff [OF pos, of 2 e] by simp
  then show ?thesis using assms(3) by (simp add: ulpExp_def)
qed

lemma ulpExp_upper:
  assumes "x \<noteq> 0" and "\<bar>x\<bar> < 2 powr of_int (e + 1)" and "- 1022 \<le> e"
  shows "ulpExp x \<le> e - 52"
proof -
  have pos: "0 < \<bar>x\<bar>" using assms(1) by simp
  have "log 2 \<bar>x\<bar> < of_int (e + 1)"
    using assms(2) pos by (simp add: log_less_iff)
  then have "\<lfloor>log 2 \<bar>x\<bar>\<rfloor> \<le> e" by (simp add: floor_le_iff)
  then show ?thesis using assms(3) by (simp add: ulpExp_def)
qed

lemma roundDouble_exact:
  assumes "x = of_int n * ulp x"
  shows "roundDouble x = x"
proof (cases "x = 0")
  case True
  then show ?thesis by (simp add: roundDouble_def)
next
  case False
  have "x / ulp x = of_int n"
    using assms ulp_pos [of x] by (metis less_irrefl nonzero_eq_divide_eq)
  then show ?thesis using False assms by (simp add: roundDouble_def)
qed

lemma roundDouble_le:
  assumes "B = of_int m * ulp x" and "x \<le> B"
  shows "roundDouble x \<le> B"
proof (cases "x = 0")
  case True
  then show ?thesis using assms(2) by (simp add: roundDouble_def)
next
  case False
  have "x / ulp x \<le> of_int m"
    using assms ulp_pos [of x] by (simp add: pos_divide_le_eq)
  then have "roundHalfEven (x / ulp x) \<le> m" by (rule roundHalfEven_le)
  then have "real_of_int (roundHalfEven (x / ulp x)) * ulp x \<le> of_int m * ulp x"
    using ulp_pos [of x] by (simp add: mult_right_mono)
  then show ?thesis using False assms(1) by (simp add: roundDouble_def)
qed

lemma roundDouble_ge:
  assumes "B = of_int m * ulp x" and "B \<le> x"
  shows "B \<le> roundDouble x"
proof (cases "x = 0")
  case True
  then show ?thesis using assms(2) by (simp add: roundDouble_def)
next
  case False
  have "of_int m \<le> x / ulp x"
    using assms ulp_pos [of x] by (simp add: pos_le_divide_eq)
  then have "m \<le> roundHalfEven (x / ulp x)" by (rule roundHalfEven_ge)
  then have "of_int m * ulp x \<le> real_of_int (roundHalfEven (x / ulp x)) * ulp x"
    using ulp_pos [of x] by (simp add: mult_right_mono)
  then show ?thesis using False assms(1) by (simp add: roundDouble_def)
qed

lemma roundDouble_error:
  "\<bar>roundDouble x - x\<bar> \<le> ulp x / 2"
proof (cases "x = 0")
  case True
  then show ?thesis using ulp_pos [of 0] by (simp add: roundDouble_def less_imp_le)
next
  case False
  let ?y = "x / ulp x"
  have u: "0 < ulp x" by simp
  have un: "ulp x \<noteq> 0" by (metis ulp_pos less_irrefl)
  have x: "x = ?y * ulp x" using un by simp
  have "\<bar>real_of_int (roundHalfEven ?y) - ?y\<bar> \<le> 1 / 2"
    using roundHalfEven_upper [of ?y] roundHalfEven_lower [of ?y] by linarith
  then have "\<bar>real_of_int (roundHalfEven ?y) - ?y\<bar> * ulp x \<le> 1 / 2 * ulp x"
    using u by (simp add: mult_right_mono)
  moreover have "(real_of_int (roundHalfEven ?y) - ?y) * ulp x
      = real_of_int (roundHalfEven ?y) * ulp x - x"
    using un by (simp add: left_diff_distrib)
  then have "\<bar>real_of_int (roundHalfEven ?y) - ?y\<bar> * ulp x
      = \<bar>real_of_int (roundHalfEven ?y) * ulp x - x\<bar>"
    using u by (metis abs_mult abs_of_pos)
  ultimately show ?thesis using False by (simp add: roundDouble_def)
qed

lemma powr2_nonpos: "j \<le> 0 \<Longrightarrow> (2::real) powr of_int j = 1 / 2 ^ nat (- j)"
proof -
  assume j: "j \<le> 0"
  have "(2::real) powr of_int j = 2 powr (- real (nat (- j)))" using j by simp
  also have "\<dots> = inverse (2 powr real (nat (- j)))" by (rule powr_minus)
  also have "\<dots> = 1 / 2 ^ nat (- j)" by (simp add: powr_realpow inverse_eq_divide)
  finally show ?thesis .
qed

lemma powr2_nonneg: "0 \<le> j \<Longrightarrow> (2::real) powr of_int j = 2 ^ nat j"
proof -
  assume j: "0 \<le> j"
  have "(2::real) powr of_int j = 2 powr real (nat j)" using j by simp
  also have "\<dots> = 2 ^ nat j" by (simp add: powr_realpow)
  finally show ?thesis .
qed

lemma grid_refine:
  assumes "j \<le> k"
  shows "of_int m * (2::real) powr of_int k = of_int (m * 2 ^ nat (k - j)) * 2 powr of_int j"
proof -
  have "(2::real) powr of_int k = 2 powr (of_int (k - j) + of_int j)" by simp
  also have "\<dots> = 2 powr of_int (k - j) * 2 powr of_int j" by (rule powr_add)
  also have "\<dots> = 2 ^ nat (k - j) * 2 powr of_int j"
    using assms powr2_nonneg [of "k - j"] by (simp only: diff_ge_0_iff_ge)
  finally show ?thesis by simp
qed

lemma roundDouble_grid_exact:
  assumes "x = of_int m * 2 powr of_int k" and "ulpExp x \<le> k"
  shows "roundDouble x = x"
proof -
  have "x = of_int (m * 2 ^ nat (k - ulpExp x)) * ulp x"
    unfolding ulp_def using grid_refine [OF assms(2), of m] assms(1) by simp
  then show ?thesis by (rule roundDouble_exact)
qed

lemma roundDouble_grid_le:
  assumes "B = of_int m * 2 powr of_int k" and "ulpExp x \<le> k" and "x \<le> B"
  shows "roundDouble x \<le> B"
proof -
  have "B = of_int (m * 2 ^ nat (k - ulpExp x)) * ulp x"
    unfolding ulp_def using grid_refine [OF assms(2), of m] assms(1) by simp
  then show ?thesis using assms(3) by (rule roundDouble_le)
qed

lemma roundDouble_grid_ge:
  assumes "B = of_int m * 2 powr of_int k" and "ulpExp x \<le> k" and "B \<le> x"
  shows "B \<le> roundDouble x"
proof -
  have "B = of_int (m * 2 ^ nat (k - ulpExp x)) * ulp x"
    unfolding ulp_def using grid_refine [OF assms(2), of m] assms(1) by simp
  then show ?thesis using assms(3) by (rule roundDouble_ge)
qed

lemma roundDouble_zero [simp]: "roundDouble 0 = 0"
  by (simp add: roundDouble_def)

lemma ulpExp_below:
  assumes "\<bar>x\<bar> < 2 ^ n" and "n \<le> 53"
  shows "x = 0 \<or> ulpExp x \<le> 0"
proof (cases "x = 0")
  case True
  then show ?thesis by simp
next
  case False
  have "(2::real) ^ n \<le> 2 ^ 53" using assms(2) by (intro power_increasing) simp_all
  with assms(1) have "\<bar>x\<bar> < 2 ^ 53" by linarith
  then have "\<bar>x\<bar> < 2 powr of_int (52 + 1)" by simp
  from ulpExp_upper [OF False this] show ?thesis by simp
qed

lemma roundDouble_int_small:
  assumes "\<bar>real_of_int n\<bar> < 2 ^ 53"
  shows "roundDouble (of_int n) = of_int n"
proof -
  from ulpExp_below [OF assms] have "real_of_int n = 0 \<or> ulpExp (of_int n) \<le> 0" by simp
  then show ?thesis
  proof
    assume "real_of_int n = 0"
    then show ?thesis by simp
  next
    assume u: "ulpExp (real_of_int n) \<le> 0"
    have "real_of_int n = of_int n * 2 powr of_int 0" by simp
    from roundDouble_grid_exact [OF this] u show ?thesis by simp
  qed
qed

lemma roundDouble_int_le:
  assumes "\<bar>x\<bar> < 2 ^ 53" and "x \<le> of_int m"
  shows "roundDouble x \<le> of_int m"
proof -
  from ulpExp_below [OF assms(1)] have "x = 0 \<or> ulpExp x \<le> 0" by simp
  then show ?thesis
  proof
    assume "x = 0"
    then show ?thesis using assms(2) by simp
  next
    assume u: "ulpExp x \<le> 0"
    have "real_of_int m = of_int m * 2 powr of_int 0" by simp
    from roundDouble_grid_le [OF this] u assms(2) show ?thesis by simp
  qed
qed

lemma roundDouble_int_ge:
  assumes "\<bar>x\<bar> < 2 ^ 53" and "of_int m \<le> x"
  shows "of_int m \<le> roundDouble x"
proof -
  from ulpExp_below [OF assms(1)] have "x = 0 \<or> ulpExp x \<le> 0" by simp
  then show ?thesis
  proof
    assume "x = 0"
    then show ?thesis using assms(2) by simp
  next
    assume u: "ulpExp x \<le> 0"
    have "real_of_int m = of_int m * 2 powr of_int 0" by simp
    from roundDouble_grid_ge [OF this] u assms(2) show ?thesis by simp
  qed
qed

lemma roundDouble_int_exact:
  assumes "\<bar>n\<bar> \<le> 2 ^ 53"
  shows "roundDouble (of_int n) = of_int n"
proof (cases "\<bar>n\<bar> < 2 ^ 53")
  case True
  then have "\<bar>real_of_int n\<bar> < 2 ^ 53"
    by (metis of_int_abs of_int_less_iff of_int_numeral of_int_power)
  then show ?thesis by (rule roundDouble_int_small)
next
  case False
  with assms have n: "\<bar>n\<bar> = 2 ^ 53" by simp
  then have ne: "real_of_int n \<noteq> 0" by auto
  have "\<bar>real_of_int n\<bar> = 2 ^ 53"
    using n by (metis of_int_abs of_int_numeral of_int_power)
  then have "\<bar>real_of_int n\<bar> < 2 powr of_int (53 + 1)" by simp
  from ulpExp_upper [OF ne this] have u: "ulpExp (of_int n) \<le> 1" by simp
  have "even n" using n by (metis even_abs_add_iff even_add even_numeral even_power zero_less_numeral)
  then obtain h where h: "n = 2 * h" by (elim evenE)
  have "real_of_int n = of_int h * 2 powr of_int 1" by (simp add: h)
  from roundDouble_grid_exact [OF this u] show ?thesis .
qed

lemma jsAddInt_exact:
  assumes "\<bar>a + b\<bar> \<le> 2 ^ 53"
  shows "jsAddInt a b = a + b"
proof -
  have "roundDouble (of_int (a + b)) = of_int (a + b)"
    using assms by (rule roundDouble_int_exact)
  then show ?thesis by (simp add: jsAddInt_def jsAdd_def)
qed

lemma isDouble_below_one:
  assumes "isDouble r" and "1 / 2 \<le> r" and "r < 1"
  shows "r \<le> 1 - 1 / 2 ^ 53"
proof -
  have b: "2 powr of_int (- 1) \<le> \<bar>r\<bar>" "\<bar>r\<bar> < 2 powr of_int (- 1 + 1)"
    using assms(2,3) by (simp_all add: powr_minus inverse_eq_divide)
  have e: "ulpExp r = - 53" using ulpExp_binade [OF b] by simp
  have u: "ulp r = 1 / 2 ^ 53" unfolding ulp_def e using powr2_nonpos [of "- 53"] by simp
  have rn: "r \<noteq> 0" using assms(2) by simp
  define N where "N = roundHalfEven (r / ulp r)"
  have r: "r = of_int N / 2 ^ 53"
    using assms(1) rn unfolding isDouble_def roundDouble_def N_def u by simp
  with assms(3) have "real_of_int N < 2 ^ 53" by (simp add: divide_less_eq)
  then have "real_of_int N < real_of_int (2 ^ 53)" by simp
  then have "N < 2 ^ 53" by (simp only: of_int_less_iff)
  then have "N \<le> 2 ^ 53 - 1" by simp
  then have "real_of_int N \<le> real_of_int (2 ^ 53 - 1)" by (simp only: of_int_le_iff)
  then have "real_of_int N \<le> 2 ^ 53 - 1" by simp
  then have "real_of_int N / 2 ^ 53 \<le> (2 ^ 53 - 1) / 2 ^ 53" by (simp add: divide_right_mono)
  then show ?thesis unfolding r by (simp add: diff_divide_distrib)
qed

lemma randomOffset_range:
  assumes "isDouble r" and "0 \<le> r" and "r < 1"
  shows "randomOffset r \<in> {- 1, 0, 1}"
proof -
  let ?x = "r * 3"
  have x: "0 \<le> ?x" "?x < 3" using assms(2,3) by simp_all
  then have small: "\<bar>?x\<bar> < 2 ^ 53" by simp
  have lo: "0 \<le> roundDouble ?x"
    using roundDouble_int_ge [OF small, of 0] x(1) by simp
  have hi: "roundDouble ?x < 3"
  proof (cases "?x < 2")
    case True
    then have "roundDouble ?x \<le> 2"
      using roundDouble_int_le [OF small, of 2] by simp
    then show ?thesis by simp
  next
    case False
    then have two: "2 \<le> ?x" by simp
    have b: "2 powr of_int 1 \<le> \<bar>?x\<bar>" "\<bar>?x\<bar> < 2 powr of_int (1 + 1)"
      using two x by simp_all
    have e: "ulpExp ?x = - 51" using ulpExp_binade [OF b] by simp
    have u: "ulp ?x = 1 / 2 ^ 51" unfolding ulp_def e using powr2_nonpos [of "- 51"] by simp
    have "1 / 2 \<le> r" using two by simp
    from isDouble_below_one [OF assms(1) this assms(3)] have "?x \<le> 3 - 3 / 2 ^ 53" by simp
    moreover have "roundDouble ?x \<le> ?x + ulp ?x / 2"
      using roundDouble_error [of ?x] by linarith
    ultimately have "roundDouble ?x \<le> 3 - 3 / 2 ^ 53 + 1 / 2 ^ 51 / 2"
      unfolding u by linarith
    then show ?thesis by simp
  qed
  have "0 \<le> \<lfloor>roundDouble ?x\<rfloor>" using lo by simp
  moreover have "\<lfloor>roundDouble ?x\<rfloor> < 3" using hi by (simp add: floor_less_iff)
  ultimately have "\<lfloor>roundDouble ?x\<rfloor> = 0 \<or> \<lfloor>roundDouble ?x\<rfloor> = 1 \<or> \<lfloor>roundDouble ?x\<rfloor> = 2"
    by arith
  then show ?thesis unfolding randomOffset_def jsMul_def by auto
qed

lemma randomWait_range:
  assumes "0 \<le> r" and "r < 1"
  shows "5000 \<le> randomWait r \<and> randomWait r \<le> 8000"
proof -
  let ?x = "r * 3000"
  have x: "0 \<le> ?x" "?x < 3000" using assms by simp_all
  then have small: "\<bar>?x\<bar> < 2 ^ 53" by simp
  have p: "0 \<le> roundDouble ?x" "roundDouble ?x \<le> 3000"
    using roundDouble_int_ge [OF small, of 0] roundDouble_int_le [OF small, of 3000] x by simp_all
  let ?y = "5000 + roundDouble ?x"
  have y: "5000 \<le> ?y" "?y \<le> 8000" using p by simp_all
  then have smally: "\<bar>?y\<bar> < 2 ^ 53" by simp
  show ?thesis
    unfolding randomWait_def jsAdd_def jsMul_def
    using roundDouble_int_ge [OF smally, of 5000] roundDouble_int_le [OF smally, of 8000] y
    by simp
qed

lemma jsSubInt_exact:
  assumes "\<bar>a - b\<bar> \<le> 2 ^ 53"
  shows "jsSubInt a b = a - b"
proof -
  have "roundDouble (of_int (a - b)) = of_int (a - b)"
    using assms by (rule roundDouble_int_exact)
  then show ?thesis by (simp add: jsSubInt_def jsSub_def)
qed

lemma roundDouble_binade:
  assumes "2 powr of_int e \<le> \<bar>x\<bar>" and "\<bar>x\<bar> < 2 powr of_int (e + 1)" and "- 1022 \<le> e"
  shows "roundDouble x = of_int (roundHalfEven (x / 2 powr of_int (e - 52))) * 2 powr of_int (e - 52)"
proof -
  have "x \<noteq> 0" using assms(1) by (smt (verit) powr_gt_zero)
  then show ?thesis
    by (simp add: roundDouble_def ulp_def ulpExp_binade [OF assms])
qed

lemma roundHalfEven_tie_odd:
  "y = of_int n + 1 / 2 \<Longrightarrow> odd n \<Longrightarrow> roundHalfEven y = n + 1"
proof -
  assume y: "y = of_int n + 1 / 2" and o: "odd n"
  have f: "\<lfloor>y\<rfloor> = n" unfolding y by linarith
  show ?thesis unfolding roundHalfEven_def f Let_def using o by (simp add: y)
qed

lemma roundHalfEven_up:
  "of_int n + 1 / 2 < y \<Longrightarrow> y < of_int n + 1 \<Longrightarrow> roundHalfEven y = n + 1"
proof -
  assume a: "of_int n + 1 / 2 < y" and b: "y < of_int n + 1"
  have f: "\<lfloor>y\<rfloor> = n" using a b by linarith
  show ?thesis unfolding roundHalfEven_def f Let_def using a by simp
qed

text \<open>
  At \<open>2 ^ 53\<close> the sum with 1 falls half-way between two doubles and rounds back to the
  even one: the addition no longer tells \<open>2 ^ 53\<close> from \<open>2 ^ 53 + 1\<close>.
\<close>

lemma roundHalfEven_tie_even:
  "y = of_int n + 1 / 2 \<Longrightarrow> even n \<Longrightarrow> roundHalfEven y = n"
proof -
  assume y: "y = of_int n + 1 / 2" and e: "even n"
  have f: "\<lfloor>y\<rfloor> = n" unfolding y by linarith
  show ?thesis unfolding roundHalfEven_def f Let_def using e by (simp add: y)
qed

lemma jsAddInt_two_pow_53: "jsAddInt (2 ^ 53) 1 = 2 ^ 53"
proof -
  let ?x = "2 ^ 53 + 1 :: real"
  have b: "2 powr of_int 53 \<le> \<bar>?x\<bar>" "\<bar>?x\<bar> < 2 powr of_int (53 + 1)" by simp_all
  have p: "(2::real) powr of_int (53 - 52) = 2" by simp
  have r: "roundHalfEven (?x / 2) = 2 ^ 52"
    by (rule roundHalfEven_tie_even) simp_all
  have "roundDouble ?x =
      of_int (roundHalfEven (?x / 2 powr of_int (53 - 52))) * 2 powr of_int (53 - 52)"
    by (rule roundDouble_binade [OF b]) simp
  also have "\<dots> = of_int (roundHalfEven (?x / 2)) * 2" by (simp only: p)
  also have "\<dots> = of_int (2 ^ 52) * 2" by (simp only: r)
  also have "\<dots> = 2 ^ 53" by simp
  finally have "roundDouble ?x = 2 ^ 53" .
  then show ?thesis by (simp add: jsAddInt_def jsAdd_def)
qed

lemma edge_product: "jsMul (1 - 1 / 2 ^ 52) 3000 = 3000 - 1 / 2 ^ 41"
proof -
  let ?x = "(1 - 1 / 2 ^ 52) * 3000 :: real"
  have b: "2 powr of_int 11 \<le> \<bar>?x\<bar>" "\<bar>?x\<bar> < 2 powr of_int (11 + 1)" by simp_all
  have p: "(2::real) powr of_int (11 - 52) = 1 / 2 ^ 41" using powr2_nonpos [of "- 41"] by simp
  have r: "roundHalfEven (?x / (1 / 2 ^ 41)) = (3000 * 2 ^ 41 - 2) + 1"
    by (rule roundHalfEven_up) simp_all
  have "roundDouble ?x =
      of_int (roundHalfEven (?x / 2 powr of_int (11 - 52))) * 2 powr of_int (11 - 52)"
    by (rule roundDouble_binade [OF b]) simp
  also have "\<dots> = of_int (roundHalfEven (?x / (1 / 2 ^ 41))) * (1 / 2 ^ 41)"
    by (simp only: p)
  also have "\<dots> = of_int ((3000 * 2 ^ 41 - 2) + 1) * (1 / 2 ^ 41)"
    by (simp only: r)
  also have "\<dots> = 3000 - 1 / 2 ^ 41" by simp
  finally show ?thesis by (simp only: jsMul_def)
qed

lemma randomWait_edge: "randomWait (1 - 1 / 2 ^ 52) = 8000"
proof -
  let ?y = "5000 + (3000 - 1 / 2 ^ 41) :: real"
  have b: "2 powr of_int 12 \<le> \<bar>?y\<bar>" "\<bar>?y\<bar> < 2 powr of_int (12 + 1)" by simp_all
  have p: "(2::real) powr of_int (12 - 52) = 1 / 2 ^ 40" using powr2_nonpos [of "- 40"] by simp
  have r: "roundHalfEven (?y / (1 / 2 ^ 40)) = (8000 * 2 ^ 40 - 1) + 1"
    by (rule roundHalfEven_tie_odd) simp_all
  have "roundDouble ?y =
      of_int (roundHalfEven (?y / 2 powr of_int (12 - 52))) * 2 powr of_int (12 - 52)"
    by (rule roundDouble_binade [OF b]) simp
  also have "\<dots> = of_int (roundHalfEven (?y / (1 / 2 ^ 40))) * (1 / 2 ^ 40)"
    by (simp only: p)
  also have "\<dots> = of_int ((8000 * 2 ^ 40 - 1) + 1) * (1 / 2 ^ 40)"
    by (simp only: r)
  also have "\<dots> = 8000" by simp
  finally show ?thesis by (simp only: randomWait_def jsAdd_def edge_product)
qed

lemma isDouble_edge: "isDouble (1 - 1 / 2 ^ 52)"
proof -
  have "(1 - 1 / 2 ^ 52 :: real) = of_int (2 ^ 52 - 1) * 2 powr of_int (- 52)"
    using powr2_nonpos [of "- 52"] by (simp add: field_simps)
  moreover have "ulpExp (1 - 1 / 2 ^ 52) \<le> - 52"
    using ulpExp_upper [of "1 - 1 / 2 ^ 52" 0] by simp
  ultimately show ?thesis unfolding isDouble_def by (rule roundDouble_grid_exact)
qed

lemma isDouble_half: "isDouble (1 / 2)" "isDouble 0"
proof -
  have "(1 / 2 :: real) = of_int 1 * 2 powr of_int (- 1)"
    using powr2_nonpos [of "- 1"] by simp
  moreover have "ulpExp (1 / 2) \<le> - 1"
    using ulpExp_upper [of "1 / 2" 0] by simp
  ultimately show "isDouble (1 / 2)" unfolding isDouble_def by (rule roundDouble_grid_exact)
  show "isDouble 0" by (simp add: isDouble_def)
qed

lemma randomOffset_values: "randomOffset 0 = - 1" "randomOffset (1 / 2) = 0"
proof -
  show "randomOffset 0 = - 1" by (simp add: randomOffset_def jsMul_def)
  have "(3 / 2 :: real) = of_int 3 * 2 powr of_int (- 1)"
    using powr2_nonpos [of "- 1"] by simp
  moreover have "ulpExp (3 / 2) \<le> - 1"
    using ulpExp_upper [of "3 / 2" 1] by simp
  ultimately have e: "roundDouble (3 / 2) = 3 / 2" by (rule roundDouble_grid_exact)
  have f: "\<lfloor>3 / 2 :: real\<rfloor> = 1" by linarith
  show "randomOffset (1 / 2) = 0" by (simp add: randomOffset_def jsMul_def e f)
qed

lemma randomWait_half: "randomWait (1 / 2) = 6500"
proof -
  have a: "roundDouble (real_of_int 1500) = real_of_int 1500"
    by (rule roundDouble_int_exact) simp
  have b: "roundDouble (real_of_int 6500) = real_of_int 6500"
    by (rule roundDouble_int_exact) simp
  show ?thesis using a b by (simp add: randomWait_def jsAdd_def jsMul_def)
qed

lemma ulp_le_abs:
  assumes "1 \<le> \<bar>x\<bar>"
  shows "ulp x \<le> \<bar>x\<bar>"
proof -
  have pos: "0 < \<bar>x\<bar>" using assms by linarith
  have "0 \<le> log 2 \<bar>x\<bar>" using assms by simp
  then have f: "0 \<le> \<lfloor>log 2 \<bar>x\<bar>\<rfloor>" by simp
  then have e: "ulpExp x = \<lfloor>log 2 \<bar>x\<bar>\<rfloor> - 52" by (simp add: ulpExp_def)
  have "real_of_int (ulpExp x) \<le> log 2 \<bar>x\<bar>"
    unfolding e using of_int_floor_le [of "log 2 \<bar>x\<bar>"] by linarith
  then have "2 powr real_of_int (ulpExp x) \<le> 2 powr log 2 \<bar>x\<bar>"
    by (simp add: powr_mono)
  then show ?thesis using pos by (simp add: ulp_def)
qed

lemma roundDouble_ge_one:
  assumes "1 \<le> x"
  shows "1 \<le> roundDouble x"
proof (cases "\<bar>x\<bar> < 2 ^ 53")
  case True
  from roundDouble_int_ge [OF True, of 1] assms show ?thesis by simp
next
  case False
  then have big: "2 ^ 53 \<le> x" using assms by simp
  have ne: "x \<noteq> 0" using assms by simp
  have "2 powr 53 \<le> \<bar>x\<bar>" using big by simp
  then have "53 \<le> log 2 \<bar>x\<bar>" using ne by (simp add: le_log_iff)
  then have "53 \<le> \<lfloor>log 2 \<bar>x\<bar>\<rfloor>" by (simp add: le_floor_iff)
  then have "0 \<le> ulpExp x" by (simp add: ulpExp_def)
  then have u1: "1 \<le> ulp x" unfolding ulp_def by (simp add: powr2_nonneg)
  have "ulp x \<le> \<bar>x\<bar>" using assms by (intro ulp_le_abs) simp
  then have "real_of_int 1 * ulp x \<le> x" using assms by simp
  from roundDouble_ge [OF refl this] u1 show ?thesis by simp
qed

lemma roundDouble_le_minus_one:
  assumes "x \<le> - 1"
  shows "roundDouble x \<le> - 1"
proof (cases "\<bar>x\<bar> < 2 ^ 53")
  case True
  from roundDouble_int_le [OF True, of "- 1"] assms show ?thesis by simp
next
  case False
  then have big: "x \<le> - (2 ^ 53)" using assms by simp
  have ne: "x \<noteq> 0" using assms by simp
  have "2 powr 53 \<le> \<bar>x\<bar>" using big by simp
  then have "53 \<le> log 2 \<bar>x\<bar>" using ne by (simp add: le_log_iff)
  then have "53 \<le> \<lfloor>log 2 \<bar>x\<bar>\<rfloor>" by (simp add: le_floor_iff)
  then have "0 \<le> ulpExp x" by (simp add: ulpExp_def)
  then have u1: "1 \<le> ulp x" unfolding ulp_def by (simp add: powr2_nonneg)
  have "ulp x \<le> \<bar>x\<bar>" using assms by (intro ulp_le_abs) simp
  then have "x \<le> real_of_int (- 1) * ulp x" using assms by simp
  from roundDouble_le [OF refl this] u1 show ?thesis by simp
qed

lemma jsSubInt_sign:
  "(0 < jsSubInt a b) = (b < a)" "(jsSubInt a b < 0) = (a < b)"
proof -
  let ?x = "real_of_int a - real_of_int b"
  consider (pos) "1 \<le> ?x" | (zero) "?x = 0" | (neg) "?x \<le> - 1"
  proof -
    have "1 \<le> a - b \<or> a - b = 0 \<or> a - b \<le> - 1" by arith
    then have "real_of_int 1 \<le> real_of_int (a - b) \<or> real_of_int (a - b) = real_of_int 0
        \<or> real_of_int (a - b) \<le> real_of_int (- 1)"
      by (simp only: of_int_le_iff of_int_eq_iff)
    then show ?thesis using that by auto
  qed
  then have "((0 < jsSubInt a b) = (b < a)) \<and> ((jsSubInt a b < 0) = (a < b))"
  proof cases
    case pos
    note r = roundDouble_ge_one [OF pos]
    have "b < a" using pos by linarith
    with r show ?thesis by (simp add: jsSubInt_def jsSub_def)
  next
    case zero
    then have "a = b" by simp
    then show ?thesis by (simp add: jsSubInt_def jsSub_def)
  next
    case neg
    note r = roundDouble_le_minus_one [OF neg]
    have "a < b" using neg by linarith
    with r show ?thesis by (simp add: jsSubInt_def jsSub_def)
  qed
  then show "(0 < jsSubInt a b) = (b < a)" "(jsSubInt a b < 0) = (a < b)" by simp_all
qed

section \<open>The log ring\<close>

lemma storeAdd_messages:
  "consoleMessages (storeAddConsoleMessage m st) =
     (if length (consoleMessages st) \<ge> 100 then tl (consoleMessages st @ [m])
      else consoleMessages st @ [m])"
  by (simp add: storeAddConsoleMessage_def Let_def)

lemma storeAdd_bounded:
  "length (consoleMessages st) \<le> 100 \<Longrightarrow>
   length (consoleMessages (storeAddConsoleMessage m st)) \<le> 100"
  by (simp add: storeAdd_messages)

lemma storeAddAll_bounded:
  "length (consoleMessages st) \<le> 100 \<Longrightarrow>
   length (consoleMessages (storeAddAll ms st)) \<le> 100"
  unfolding storeAddAll_def
  by (induction ms arbitrary: st) (simp_all add: storeAdd_bounded)

lemma storeAddAll_last100:
  "length (consoleMessages st) \<le> 100 \<Longrightarrow>
   consoleMessages (storeAddAll ms st) =
     drop (length (consoleMessages st @ ms) - 100) (consoleMessages st @ ms)"
  unfolding storeAddAll_def
proof (induction ms arbitrary: st)
  case Nil
  then show ?case by simp
next
  case (Cons m ms)
  let ?st' = "storeAddConsoleMessage m st"
  have len: "length (consoleMessages ?st') \<le> 100"
    using Cons.prems by (rule storeAdd_bounded)
  have step: "consoleMessages ?st' @ ms =
      drop (length (consoleMessages st @ [m]) - 100) (consoleMessages st @ m # ms)"
  proof (cases "length (consoleMessages st) \<ge> 100")
    case True
    with Cons.prems have "length (consoleMessages st) = 100" by simp
    then show ?thesis
      by (cases "consoleMessages st") (simp_all add: storeAdd_messages)
  next
    case False
    then show ?thesis by (simp add: storeAdd_messages)
  qed
  have "consoleMessages (foldl (\<lambda>acc m. storeAddConsoleMessage m acc) ?st' ms) =
      drop (length (consoleMessages ?st' @ ms) - 100) (consoleMessages ?st' @ ms)"
    using Cons.IH [OF len] .
  also have "\<dots> = drop (length (consoleMessages st @ m # ms) - 100) (consoleMessages st @ m # ms)"
  proof (cases "length (consoleMessages st) \<ge> 100")
    case True
    with Cons.prems have "length (consoleMessages st) = 100" by simp
    then show ?thesis unfolding step by simp
  next
    case False
    then show ?thesis unfolding step by simp
  qed
  finally show ?case by simp
qed

text \<open>
  C5. From any log of at most 100 entries (the fresh storage's log is empty), after any
  sequence of appends the console log holds at most 100 entries, and it holds the most
  recent (up to) 100 of the old entries and the appended messages, in their order and
  unchanged. One append to a log of exactly 100 entries drops the oldest and keeps the
  other 99, followed by the new message; one append to a shorter log keeps every entry
  and adds the new message at the end.
\<close>

theorem C5_log_ring_bounded:
  assumes "length (consoleMessages st) \<le> 100"
  shows "length (consoleMessages (storeAddAll ms st)) \<le> 100
   \<and> consoleMessages (storeAddAll ms st) =
       drop (length (consoleMessages st @ ms) - 100) (consoleMessages st @ ms)
   \<and> consoleMessages (storeAddConsoleMessage m st) =
       (if length (consoleMessages st) = 100 then tl (consoleMessages st) @ [m]
        else consoleMessages st @ [m])"
proof -
  have a: "length (consoleMessages (storeAddAll ms st)) \<le> 100"
    using assms by (rule storeAddAll_bounded)
  have b: "consoleMessages (storeAddAll ms st) =
       drop (length (consoleMessages st @ ms) - 100) (consoleMessages st @ ms)"
    using assms by (rule storeAddAll_last100)
  have c: "consoleMessages (storeAddConsoleMessage m st) =
       (if length (consoleMessages st) = 100 then tl (consoleMessages st) @ [m]
        else consoleMessages st @ [m])"
    using assms by (cases "consoleMessages st") (auto simp add: storeAdd_messages)
  from a b c show ?thesis by blast
qed

theorem C5_log_ring_bounded_witness:
  "length (consoleMessages fullStorage) \<le> 100
   \<and> length (consoleMessages (storeAddAll [newMessage, oldMessage] fullStorage)) \<le> 100
   \<and> consoleMessages (storeAddConsoleMessage newMessage fullStorage)
       = replicate 99 oldMessage @ [newMessage]"
  using C5_log_ring_bounded [of fullStorage "[newMessage, oldMessage]" newMessage]
  by (simp add: fullStorage_def)

section \<open>What the helpers leave unchanged\<close>

lemma emit_fields [simp]:
  "bot (emit e s) = bot s" "running (emit e s) = running s"
  "homePosition (emit e s) = homePosition s" "settings (emit e s) = settings s"
  "clients (emit e s) = clients s" "timeoutId (emit e s) = timeoutId s"
  "storage (emit e s) = storage s" "nowText (emit e s) = nowText s"
  "nowMs (emit e s) = nowMs s" "loopMs (emit e s) = loopMs s"
  "trace (emit e s) = trace s @ [e]"
  by (simp_all add: emit_def)

lemma sendAll_fields [simp]:
  "bot (sendAll p s) = bot s" "running (sendAll p s) = running s"
  "homePosition (sendAll p s) = homePosition s" "settings (sendAll p s) = settings s"
  "clients (sendAll p s) = clients s" "timeoutId (sendAll p s) = timeoutId s"
  "storage (sendAll p s) = storage s" "nowText (sendAll p s) = nowText s"
  "nowMs (sendAll p s) = nowMs s" "loopMs (sendAll p s) = loopMs s"
  "trace (sendAll p s) = trace s @ map (\<lambda>c. Send (cid c) p) (filter readyOpen (clients s))"
  by (simp_all add: sendAll_def)

lemma addConsoleMessage_fields [simp]:
  "bot (addConsoleMessage m ty s) = bot s" "running (addConsoleMessage m ty s) = running s"
  "homePosition (addConsoleMessage m ty s) = homePosition s"
  "settings (addConsoleMessage m ty s) = settings s"
  "clients (addConsoleMessage m ty s) = clients s"
  "timeoutId (addConsoleMessage m ty s) = timeoutId s"
  "nowText (addConsoleMessage m ty s) = nowText s"
  "nowMs (addConsoleMessage m ty s) = nowMs s"
  "loopMs (addConsoleMessage m ty s) = loopMs s"
  "storage (addConsoleMessage m ty s) =
     storeAddConsoleMessage \<lparr>timestamp = nowText s, message = m, mtype = ty\<rparr> (storage s)"
  "trace (addConsoleMessage m ty s) =
     trace s @ map (\<lambda>c. Send (cid c) (ConsoleMsg \<lparr>timestamp = nowText s, message = m, mtype = ty\<rparr>))
                 (filter readyOpen (clients s))"
  by (simp_all add: addConsoleMessage_def Let_def)

lemma storeAdd_botSettings [simp]:
  "botSettings (storeAddConsoleMessage m st) = botSettings st"
  by (simp add: storeAddConsoleMessage_def Let_def)

lemma keeps_refl [simp]: "keeps s s"
  by (simp add: keeps_def)

lemma keeps_trans: "keeps s s' \<Longrightarrow> keeps s' s'' \<Longrightarrow> keeps s s''"
  by (simp add: keeps_def)

lemma keeps_emit [simp]: "keeps s (emit e s') = keeps s s'"
  by (simp add: keeps_def)

lemma keeps_sendAll [simp]: "keeps s (sendAll p s') = keeps s s'"
  by (simp add: keeps_def)

lemma keeps_addConsoleMessage [simp]: "keeps s (addConsoleMessage m ty s') = keeps s s'"
  by (simp add: keeps_def)

lemma keeps_timeoutId [simp]: "keeps s (s'\<lparr>timeoutId := t\<rparr>) = keeps s s'"
  by (simp add: keeps_def)

lemma getBotStatus_cong:
  "bot s' = bot s \<Longrightarrow> running s' = running s \<Longrightarrow> homePosition s' = homePosition s \<Longrightarrow>
   getBotStatus s' = getBotStatus s"
  by (auto simp add: getBotStatus_def initialStatus_def Let_def split: option.splits)

lemma keeps_broadcastStatus [simp]: "keeps s (stateOf (broadcastStatus s')) = keeps s s'"
  by (simp add: broadcastStatus_def stateOf_def split: sum.splits)

lemma keeps_findAndSleepInBed [simp]: "keeps s (findAndSleepInBed s') = keeps s s'"
  by (simp add: findAndSleepInBed_def Let_def split: option.splits)

lemma keeps_attemptWakeUp [simp]: "keeps s (attemptWakeUp s') = keeps s s'"
  by (simp add: attemptWakeUp_def split: option.splits)

lemma keeps_attemptWake [simp]: "keeps s (attemptWake n s') = keeps s s'"
  by (simp add: attemptWake_def split: option.splits)

lemma keeps_checkSleepConditions [simp]: "keeps s (checkSleepConditions s') = keeps s s'"
  by (simp add: checkSleepConditions_def Let_def split: option.splits)

lemma keeps_forceWakeUpNow [simp]: "keeps s (forceWakeUpNow s') = keeps s s'"
  by (simp add: forceWakeUpNow_def Let_def split: option.splits)

lemma keeps_shouldSleep [simp]: "keeps s (snd (shouldSleep s')) = keeps s s'"
  by (simp add: shouldSleep_def Let_def split: option.splits)

lemma stateOf_simps [simp]: "stateOf (Inr s) = s" "stateOf (Inl (e, s)) = s"
  by (simp_all add: stateOf_def)

lemma keeps_andThen:
  assumes "keeps s (stateOf r)" and "\<And>s'. keeps s s' \<Longrightarrow> keeps s (stateOf (f s'))"
  shows "keeps s (stateOf (andThen r f))"
  using assms by (cases r) (auto simp add: andThen_def)

lemma keeps_tryCatch:
  assumes "keeps s (stateOf r)" and "\<And>e s'. keeps s s' \<Longrightarrow> keeps s (stateOf (h e s'))"
  shows "keeps s (stateOf (tryCatch r h))"
  using assms by (cases r) (auto simp add: tryCatch_def)

lemma keeps_moveDirectlyTry:
  "keeps s s' \<Longrightarrow> keeps s (stateOf (moveDirectlyTry b x y z s'))"
  by (simp add: moveDirectlyTry_def Let_def split: option.splits)

lemma keeps_moveDirectlyCatch:
  "keeps s s' \<Longrightarrow> keeps s (stateOf (moveDirectlyCatch e s'))"
  by (simp add: moveDirectlyCatch_def Let_def)

lemma keeps_moveDirectly:
  "keeps s s' \<Longrightarrow> keeps s (stateOf (moveDirectly x y z s'))"
  by (auto simp add: moveDirectly_def split: option.splits
      intro!: keeps_tryCatch keeps_moveDirectlyTry keeps_moveDirectlyCatch)

lemma keeps_armWanderTimer [simp]: "keeps s (armWanderTimer delay s') = keeps s s'"
  by (simp add: armWanderTimer_def Let_def)

lemma keeps_wanderTry:
  "keeps s s' \<Longrightarrow> keeps s (stateOf (wanderTry tx ty tz r s'))"
  by (auto simp add: wanderTry_def intro!: keeps_andThen keeps_moveDirectly)

lemma keeps_wanderCatch:
  "keeps s s' \<Longrightarrow> keeps s (stateOf (wanderCatch e s'))"
  by (simp add: wanderCatch_def)

lemma keeps_shouldSleep_pair: "shouldSleep s' = (v, s'') \<Longrightarrow> keeps s s'' = keeps s s'"
  using keeps_shouldSleep [of s s'] by simp

lemma keeps_wanderStep:
  "keeps s s' \<Longrightarrow> keeps s (stateOf (wanderStep d s'))"
  by (auto simp add: wanderStep_def Let_def keeps_shouldSleep_pair split: option.splits prod.splits bool.splits
      intro!: keeps_tryCatch keeps_wanderTry keeps_wanderCatch)

lemma keeps_watchdogTick:
  "keeps s s' \<Longrightarrow> keeps s (stateOf (watchdogTick d s'))"
  by (auto simp add: watchdogTick_def Let_def keeps_shouldSleep_pair split: option.splits prod.splits bool.splits
      intro!: keeps_wanderStep)

lemma keeps_startWandering:
  "keeps s s' \<Longrightarrow> keeps s (stateOf (startWandering d s'))"
  by (auto simp add: startWandering_def Let_def intro!: keeps_andThen keeps_wanderStep)

lemma keeps_enforceAreaBoundaries:
  "keeps s s' \<Longrightarrow> keeps s (stateOf (enforceAreaBoundaries s'))"
  by (simp add: enforceAreaBoundaries_def Let_def split: option.splits)

lemma keeps_boundaryCheckTick:
  "keeps s s' \<Longrightarrow> keeps s (stateOf (boundaryCheckTick s'))"
  by (simp add: boundaryCheckTick_def keeps_enforceAreaBoundaries)

lemma keeps_onPlayerJoined: "keeps s (stateOf (onPlayerJoined name s))"
  by (auto simp add: onPlayerJoined_def intro!: keeps_andThen)

lemma keeps_onPlayerLeft: "keeps s (stateOf (onPlayerLeft name s))"
  by (auto simp add: onPlayerLeft_def Let_def intro!: keeps_andThen split: option.splits)

lemma keeps_onTime: "keeps s (stateOf (onTime s))"
  by (auto simp add: onTime_def intro!: keeps_andThen)

lemma keeps_misc:
  "keeps s (stateOf (onMove s))" "keeps s (onGoalReached bed s)"
  "keeps s (stateOf (onSleepResolved s))" "keeps s (onSleepRejected m s)"
  "keeps s (onCheckWakeRejected m s)" "keeps s (checkWakeRetry s)"
  "keeps s (onStandardWakeRejected m s)" "keeps s (stateOf (onEmergencyWakeResolved s))"
  "keeps s (onEmergencyWakeRejected n m s)" "keeps s (wakeupIntervalTick s)"
  "keeps s (spawnRecheck s)" "keeps s (releaseForward s)"
  by (simp_all add: onMove_def onGoalReached_def onSleepResolved_def onSleepRejected_def
      onCheckWakeRejected_def checkWakeRetry_def onStandardWakeRejected_def
      onEmergencyWakeResolved_def onEmergencyWakeRejected_def wakeupIntervalTick_def
      spawnRecheck_def releaseForward_def Let_def split: option.splits)

section \<open>The lifecycle and the session handle\<close>

lemma stateOf_andThen:
  "stateOf (andThen r f) = (case r of Inl (e, s) \<Rightarrow> s | Inr s \<Rightarrow> stateOf (f s))"
  by (simp add: andThen_def stateOf_def split: sum.splits prod.splits)

lemma stateOf_tryCatch:
  "stateOf (tryCatch r h) = (case r of Inl (e, s) \<Rightarrow> stateOf (h e s) | Inr s \<Rightarrow> s)"
  by (simp add: tryCatch_def stateOf_def split: sum.splits prod.splits)

lemma broadcastStatus_fields [simp]:
  "bot (stateOf (broadcastStatus s)) = bot s" "running (stateOf (broadcastStatus s)) = running s"
  "homePosition (stateOf (broadcastStatus s)) = homePosition s"
  "settings (stateOf (broadcastStatus s)) = settings s"
  "clients (stateOf (broadcastStatus s)) = clients s"
  "timeoutId (stateOf (broadcastStatus s)) = timeoutId s"
  "storage (stateOf (broadcastStatus s)) = storage s"
  by (simp_all add: broadcastStatus_def split: sum.splits)

lemma broadcastStatus_result:
  "broadcastStatus s = Inl (e, s') \<Longrightarrow> s' = s"
  "broadcastStatus s = Inr s' \<Longrightarrow> bot s' = bot s \<and> running s' = running s \<and> homePosition s' = homePosition s
      \<and> settings s' = settings s \<and> storage s' = storage s \<and> timeoutId s' = timeoutId s \<and> clients s' = clients s"
  by (auto simp add: broadcastStatus_def split: sum.splits)

lemma sessionInvariant_keeps: "keeps s s' \<Longrightarrow> sessionInvariant s \<Longrightarrow> sessionInvariant s'"
  by (simp add: keeps_def sessionInvariant_def)

lemma sessionInvariant_same:
  "bot s' = bot s \<Longrightarrow> running s' = running s \<Longrightarrow> sessionInvariant s \<Longrightarrow> sessionInvariant s'"
  by (simp add: sessionInvariant_def)

lemma startTry_session:
  "startTry created cfg s = Inr s' \<Longrightarrow> running s' = running s"
  "startTry created cfg s = Inl (e, s') \<Longrightarrow> bot s' = bot s \<and> running s' = running s"
  by (auto simp add: startTry_def Let_def split: sum.splits)

lemma start_sessionInvariant:
  assumes "sessionInvariant s"
  shows "sessionInvariant (stateOf (start created s))"
proof (cases "running s")
  case True
  then show ?thesis using assms by (simp add: start_def sessionInvariant_def)
next
  case False
  with assms have none: "bot s = None" by (auto simp add: sessionInvariant_def)
  show ?thesis
    using False none
    by (auto simp add: start_def Let_def sessionInvariant_def stateOf_andThen stateOf_tryCatch
        startCatch_def
        dest!: broadcastStatus_result startTry_session split: sum.splits prod.splits)
qed

lemma stopQuit_session:
  "stopQuit q s = Inr s' \<Longrightarrow> running s' = running s"
  "stopQuit q s \<noteq> Inl (e, s')"
  by (auto simp add: stopQuit_def tryCatch_def Let_def split: option.splits if_splits)

lemma stop_session:
  "running (stateOf (stop q s)) = False \<or> stateOf (stop q s) = addConsoleMessage ''Bot is already stopped'' Info s"
  "running s \<Longrightarrow> bot (stateOf (stop q s)) = None"
  by (auto simp add: stop_def stateOf_andThen stateOf_tryCatch stopAfterQuit_def stopCatch_def
      stopBeforeQuit_def Let_def andThen_def
      dest!: broadcastStatus_result stopQuit_session(1) simp add: stopQuit_session(2)
      split: sum.splits prod.splits)

section \<open>The status snapshot\<close>

lemma areaLoop_cells:
  "areaLoop home bx bz (replicate 9 False) =
     [bx = jsAddInt (px home) (- 1) \<and> bz = jsAddInt (pz home) (- 1),
      bx = jsAddInt (px home) 0 \<and> bz = jsAddInt (pz home) (- 1),
      bx = jsAddInt (px home) 1 \<and> bz = jsAddInt (pz home) (- 1),
      bx = jsAddInt (px home) (- 1) \<and> bz = jsAddInt (pz home) 0,
      bx = jsAddInt (px home) 0 \<and> bz = jsAddInt (pz home) 0,
      bx = jsAddInt (px home) 1 \<and> bz = jsAddInt (pz home) 0,
      bx = jsAddInt (px home) (- 1) \<and> bz = jsAddInt (pz home) 1,
      bx = jsAddInt (px home) 0 \<and> bz = jsAddInt (pz home) 1,
      bx = jsAddInt (px home) 1 \<and> bz = jsAddInt (pz home) 1]"
  by (simp add: areaLoop_def eval_nat_numeral)

lemma jsAddInt_near:
  assumes "\<bar>h\<bar> < 2 ^ 53"
  shows "jsAddInt h (- 1) = h - 1" "jsAddInt h 0 = h" "jsAddInt h 1 = h + 1"
proof -
  have "\<bar>h + (- 1)\<bar> \<le> 2 ^ 53" "\<bar>h + 0\<bar> \<le> 2 ^ 53" "\<bar>h + 1\<bar> \<le> 2 ^ 53"
    using assms by simp_all
  from this [THEN jsAddInt_exact]
  show "jsAddInt h (- 1) = h - 1" "jsAddInt h 0 = h" "jsAddInt h 1 = h + 1" by simp_all
qed

lemma areaLoop_fresh:
  assumes "\<bar>px home\<bar> < 2 ^ 53" and "\<bar>pz home\<bar> < 2 ^ 53"
  shows "areaLoop home bx bz (replicate 9 False) =
     [bx = px home - 1 \<and> bz = pz home - 1, bx = px home \<and> bz = pz home - 1, bx = px home + 1 \<and> bz = pz home - 1,
      bx = px home - 1 \<and> bz = pz home, bx = px home \<and> bz = pz home, bx = px home + 1 \<and> bz = pz home,
      bx = px home - 1 \<and> bz = pz home + 1, bx = px home \<and> bz = pz home + 1, bx = px home + 1 \<and> bz = pz home + 1]"
  unfolding areaLoop_cells jsAddInt_near [OF assms(1)] jsAddInt_near [OF assms(2)] ..

lemma areaLoop_offsets:
  assumes "\<bar>px home\<bar> < 2 ^ 53" and "\<bar>pz home\<bar> < 2 ^ 53"
  shows "areaLoop home (px home + dx) (pz home + dz) (replicate 9 False) =
     [dx = -1 \<and> dz = -1, dx = 0 \<and> dz = -1, dx = 1 \<and> dz = -1,
      dx = -1 \<and> dz = 0, dx = 0 \<and> dz = 0, dx = 1 \<and> dz = 0,
      dx = -1 \<and> dz = 1, dx = 0 \<and> dz = 1, dx = 1 \<and> dz = 1]"
  unfolding areaLoop_fresh [OF assms] by simp

lemma areaLoop_inside:
  assumes "\<bar>px home\<bar> < 2 ^ 53" and "\<bar>pz home\<bar> < 2 ^ 53"
    and "dx \<in> {-1, 0, 1}" and "dz \<in> {-1, 0, 1}"
  shows "length (filter id (areaLoop home (px home + dx) (pz home + dz) (replicate 9 False))) = 1
       \<and> areaLoop home (px home + dx) (pz home + dz) (replicate 9 False) ! nat ((dz + 1) * 3 + (dx + 1))"
  using assms(3,4) unfolding areaLoop_offsets [OF assms(1,2)] by (elim insertE emptyE) simp_all

lemma areaLoop_outside:
  assumes "\<bar>px home\<bar> < 2 ^ 53" and "\<bar>pz home\<bar> < 2 ^ 53"
    and "\<not> (dx \<in> {-1, 0, 1} \<and> dz \<in> {-1, 0, 1})"
  shows "areaLoop home (px home + dx) (pz home + dz) (replicate 9 False) = replicate 9 False"
  using assms(3) unfolding areaLoop_offsets [OF assms(1,2)] by (auto simp add: eval_nat_numeral)

lemma chebyshev_le_1: "(max \<bar>dx\<bar> \<bar>dz\<bar> \<le> 1) = (dx \<in> {-1, 0, 1} \<and> dz \<in> {-1, 0, (1::int)})"
  by auto

lemma areaLoop_length: "length (areaLoop home bx bz (replicate 9 False)) = 9"
  unfolding areaLoop_cells by simp

lemma areaLoop_mask:
  fixes home :: BlockPos and bx bz :: int
  assumes "\<bar>px home\<bar> < 2 ^ 53" and "\<bar>pz home\<bar> < 2 ^ 53"
  defines "dx \<equiv> bx - px home" and "dz \<equiv> bz - pz home"
  defines "cells \<equiv> areaLoop home bx bz (replicate 9 False)"
  shows "(if max \<bar>dx\<bar> \<bar>dz\<bar> \<le> 1
          then length (filter id cells) = 1 \<and> cells ! nat ((dz + 1) * 3 + (dx + 1))
          else cells = replicate 9 False)"
proof -
  have m: "cells = areaLoop home (px home + dx) (pz home + dz) (replicate 9 False)"
    by (simp add: cells_def dx_def dz_def)
  show ?thesis
  proof (cases "max \<bar>dx\<bar> \<bar>dz\<bar> \<le> 1")
    case True
    then have "dx \<in> {-1, 0, 1}" "dz \<in> {-1, 0, 1}"
      using chebyshev_le_1 [of dx dz] by blast+
    from areaLoop_inside [OF assms(1,2) this] True show ?thesis unfolding m by simp
  next
    case False
    then have "\<not> (dx \<in> {-1, 0, 1} \<and> dz \<in> {-1, 0, 1})"
      using chebyshev_le_1 [of dx dz] by blast
    from areaLoop_outside [OF assms(1,2) this] False show ?thesis unfolding m by simp
  qed
qed

text \<open>
  The bound on the home coordinates is sharp: with home and position both at \<open>2 ^ 53\<close>
  on the x axis the loop marks the centre cell and the cell east of it.
\<close>

lemma areaLoop_two_pow_53:
  "areaLoop \<lparr>px = 2 ^ 53, py = 64, pz = 0\<rparr> (2 ^ 53) 0 (replicate 9 False) =
     [False, False, False, False, True, True, False, False, False]"
proof -
  define h :: int where "h = 2 ^ 53"
  have m1: "jsAddInt h (- 1) = h - 1"
    using jsAddInt_exact [of h "- 1"] by (simp add: h_def)
  have m2: "jsAddInt h 0 = h"
    using jsAddInt_exact [of h 0] by (simp add: h_def)
  have m3: "jsAddInt h 1 = h"
    using jsAddInt_two_pow_53 by (simp add: h_def)
  have z: "jsAddInt 0 (- 1) = - 1" "jsAddInt 0 0 = 0" "jsAddInt 0 1 = 1"
    using jsAddInt_near [of 0] by simp_all
  have "areaLoop \<lparr>px = h, py = 64, pz = 0\<rparr> h 0 (replicate 9 False) =
     [False, False, False, False, True, True, False, False, False]"
    unfolding areaLoop_cells by (simp add: m1 m2 m3 z)
  then show ?thesis by (simp only: h_def)
qed

lemma getBotStatus_active:
  assumes "running s" "bot s = Some b" "entity b = Some p" "homePosition s = Some home"
  shows "getBotStatus s = Inr
     \<lparr>connected = True,
      activity = (if isSleeping b then ''Sleeping'' else ''Wandering in 3x3 area''),
      position = floorPos p,
      time = (case timeOfDay b of None \<Rightarrow> ''day''
              | Some t \<Rightarrow> if t \<ge> 0 \<and> t < 13000 then ''day'' else ''night''),
      players = otherPlayers b,
      area = areaLoop home \<lfloor>vx p\<rfloor> \<lfloor>vz p\<rfloor> (replicate 9 False)\<rparr>"
  using assms by (simp add: getBotStatus_def initialStatus_def Let_def split: option.splits)

lemma getBotStatus_idle:
  assumes "\<not> running s \<or> bot s = None"
  shows "getBotStatus s = Inr
     \<lparr>connected = False, activity = ''Idle'', position = \<lparr>px = 0, py = 0, pz = 0\<rparr>,
      time = ''day'', players = [], area = replicate 9 False\<rparr>"
  using assms by (auto simp add: getBotStatus_def initialStatus_def Let_def split: option.splits)

lemma getBotStatus_activity:
  assumes "getBotStatus s = Inr st"
  shows "activity st = (case bot s of None \<Rightarrow> ''Idle''
            | Some b \<Rightarrow> if \<not> running s then ''Idle'' else if isSleeping b then ''Sleeping''
                        else ''Wandering in 3x3 area'')"
  using assms by (auto simp add: getBotStatus_def initialStatus_def Let_def split: option.splits if_splits)

lemma getBotStatus_time:
  assumes "getBotStatus s = Inr st" "running s" "bot s = Some b" "timeOfDay b = Some t"
  shows "time st = (if 0 \<le> t \<and> t < 13000 then ''day'' else ''night'')"
  using assms by (auto simp add: getBotStatus_def initialStatus_def Let_def split: option.splits if_splits)

section \<open>Traces, and the two paths of stop\<close>

lemma isSend_simps [simp]:
  "isSend (Send i p)" "\<not> isSend Quit" "\<not> isSend (Wake w)" "\<not> isSend (SetTimeout t k)"
  "\<not> isSend (SetInterval t k)" "\<not> isSend (ClearTimeout k)" "\<not> isSend (ClearInterval k)"
  "\<not> isSend (CreateBot h u)" "\<not> isSend LoadPlugin" "\<not> isSend (SetGoal g)"
  "\<not> isSend FindBlock" "\<not> isSend (OnceGoalReached bed)" "\<not> isSend (Sleep bed)"
  "\<not> isSend SetMovements" "\<not> isSend (SetControlState f)" "\<not> isSend (LookAt v)"
  "\<not> isSend ClearControlStates"
  by (simp_all add: isSend_def)

lemma filter_sends [simp]: "filter (\<lambda>e. \<not> isSend e) (map (\<lambda>c. Send (cid c) p) cs) = []"
  by (induction cs) simp_all

lemma newCalls_append:
  "trace s' = trace s @ xs \<Longrightarrow> newCalls s s' = filter (\<lambda>e. \<not> isSend e) xs"
  by (simp add: newCalls_def)

lemma storeAdd_last [simp]:
  "last (consoleMessages (storeAddConsoleMessage m st)) = m"
  by (cases "consoleMessages st") (simp_all add: storeAddConsoleMessage_def Let_def)

lemma broadcastStatus_idle:
  "\<not> running s \<or> bot s = None \<Longrightarrow> broadcastStatus s = Inr (sendAll (StatusMsg idleStatus) s)"
  by (simp add: broadcastStatus_def getBotStatus_idle idleStatus_def)

lemma stopQuit_eq:
  "stopQuit q s =
     Inr (if bot s = None then s
          else case q of None \<Rightarrow> emit Quit s
               | Some err \<Rightarrow> addConsoleMessage (''Error during bot.quit(): '' @ err) Error (emit Quit s))"
  by (simp add: stopQuit_def tryCatch_def Let_def showExn_def split: option.splits)

lemma stop_stopped:
  "\<not> running s \<Longrightarrow> stop q s = Inr (addConsoleMessage ''Bot is already stopped'' Info s)"
  by (simp add: stop_def tryCatch_def)

lemma stop_running:
  assumes "running s"
  shows "stop q s = Inr (addConsoleMessage ''Bot stopped successfully'' Info
           (sendAll (StatusMsg idleStatus)
              ((stateOf (stopQuit q (stopBeforeQuit s)))\<lparr>bot := None, homePosition := None\<rparr>)))"
  using assms
  by (simp add: stop_def tryCatch_def andThen_def stopQuit_eq stopAfterQuit_def broadcastStatus_idle)

section \<open>Runs of events\<close>

lemma run_simps [simp]: "run [] s = s" "run (ev # evs) s = run evs (step ev s)"
  by (simp_all add: run_def)

lemma reachable_run: "reachable s \<Longrightarrow> reachable (run evs s)"
  by (induction evs arbitrary: s) (simp_all add: reach_step)

lemma reachable_initialCtrl: "reachable initialCtrl"
  unfolding initialCtrl_def by (rule reach_init)

lemma step_UpdateSettings:
  "bot (step (UpdateSettings cfg) s) = bot s" "running (step (UpdateSettings cfg) s) = running s"
  "botSettings (storage (step (UpdateSettings cfg) s)) = cfg"
  "settings (step (UpdateSettings cfg) s) = Some cfg"
  "\<not> running s \<Longrightarrow> homePosition (step (UpdateSettings cfg) s) = homePosition s"
  by (simp_all add: step_def handle_def updateSettings_def Let_def storeUpdateBotSettings_def)

lemma start_connects:
  assumes "\<not> running s" "bot s = None" "serverAddress (botSettings (storage s)) \<noteq> []"
    "serverAddress (botSettings (storage s)) \<noteq> placeholderAddress"
  shows "running (stateOf (start (Inr b) s))" "bot (stateOf (start (Inr b) s)) = Some b"
    "homePosition (stateOf (start (Inr b) s)) = homePosition s"
    "settings (stateOf (start (Inr b) s)) = Some (botSettings (storage s))"
    "\<not> isl (start (Inr b) s)"
  using assms
  by (simp_all add: start_def Let_def broadcastStatus_idle andThen_def tryCatch_def startTry_def)

lemma onSpawn_fields:
  assumes "settings s = Some cfg"
  shows "bot (stateOf (onSpawn d s)) = bot s" "running (stateOf (onSpawn d s)) = running s"
    "homePosition (stateOf (onSpawn d s)) = Some \<lparr>px = posX cfg, py = posY cfg, pz = posZ cfg\<rparr>"
proof -
  let ?s1 = "addConsoleMessage
                        (''Setting home position to X:'' @ showInt (posX cfg) @ '' Y:''
                           @ showInt (posY cfg) @ '' Z:'' @ showInt (posZ cfg)) Info
       ((addConsoleMessage ''Bot has spawned in the world'' Info s)
          \<lparr>homePosition := Some \<lparr>px = posX cfg, py = posY cfg, pz = posZ cfg\<rparr>\<rparr>)"
  have "keeps ?s1 (stateOf (onSpawn d s))"
    using assms
    by (auto simp add: onSpawn_def Let_def intro!: keeps_andThen keeps_startWandering)
  then show "bot (stateOf (onSpawn d s)) = bot s" "running (stateOf (onSpawn d s)) = running s"
    "homePosition (stateOf (onSpawn d s)) = Some \<lparr>px = posX cfg, py = posY cfg, pz = posZ cfg\<rparr>"
    by (simp_all add: keeps_def)
qed

lemma step_SessionChanged:
  "bot s \<noteq> None \<Longrightarrow> bot (step (SessionChanged b) s) = Some b"
  "running (step (SessionChanged b) s) = running s"
  "homePosition (step (SessionChanged b) s) = homePosition s"
  by (simp_all add: step_def handle_def)

lemma initialCtrl_fields:
  "running initialCtrl = False" "bot initialCtrl = None" "homePosition initialCtrl = None"
  by (simp_all add: initialCtrl_def initialize_def newCtrl_def)

lemma spawnedCtrl_fields:
  "reachable spawnedCtrl" "running spawnedCtrl" "bot spawnedCtrl = Some exampleBot"
  "homePosition spawnedCtrl = Some \<lparr>px = 0, py = 64, pz = 0\<rparr>"
proof -
  let ?s1 = "step (UpdateSettings exampleSettings) initialCtrl"
  let ?s2 = "step (Start (Inr exampleBot)) ?s1"
  have s1: "\<not> running ?s1" "bot ?s1 = None" "botSettings (storage ?s1) = exampleSettings"
    by (simp_all add: step_UpdateSettings initialCtrl_fields)
  have addr: "serverAddress (botSettings (storage ?s1)) \<noteq> []"
    "serverAddress (botSettings (storage ?s1)) \<noteq> placeholderAddress"
    unfolding s1(3) by (simp_all add: exampleSettings_def placeholderAddress_def)
  have s2: "running ?s2" "bot ?s2 = Some exampleBot" "settings ?s2 = Some exampleSettings"
    using start_connects [OF s1(1) s1(2) addr, of exampleBot] s1(3)
    by (simp_all add: step_def [of "Start (Inr exampleBot)"] handle_def)
  have sp: "spawnedCtrl = stateOf (onSpawn exampleDraws ?s2)"
    by (simp add: spawnedCtrl_def step_def [of "SpawnEvent exampleDraws"] handle_def)
  show "reachable spawnedCtrl"
    unfolding spawnedCtrl_def by (rule reachable_run [OF reachable_initialCtrl])
  show "running spawnedCtrl" "bot spawnedCtrl = Some exampleBot"
    "homePosition spawnedCtrl = Some \<lparr>px = 0, py = 64, pz = 0\<rparr>"
    using onSpawn_fields [OF s2(3), of exampleDraws] s2
    by (simp_all add: sp exampleSettings_def)
qed

lemma pushedCtrl_fields:
  "reachable pushedCtrl" "running pushedCtrl"
  "bot pushedCtrl = Some (exampleBot\<lparr>entity := Some \<lparr>vx = 5, vy = 64, vz = 0\<rparr>\<rparr>)"
  "homePosition pushedCtrl = Some \<lparr>px = 0, py = 64, pz = 0\<rparr>"
  unfolding pushedCtrl_def
  by (simp_all add: reach_step spawnedCtrl_fields step_SessionChanged)

lemma restingAtNightCtrl_fields:
  "reachable restingAtNightCtrl" "running restingAtNightCtrl"
  "bot restingAtNightCtrl = Some (exampleBot\<lparr>isSleeping := True, timeOfDay := Some 14000,
                                       playerKeys := [''MinecraftBot'', ''alice'']\<rparr>)"
  "homePosition restingAtNightCtrl = Some \<lparr>px = 0, py = 64, pz = 0\<rparr>"
  unfolding restingAtNightCtrl_def
  by (simp_all add: reach_step spawnedCtrl_fields step_SessionChanged)

lemma restingAloneCtrl_fields:
  "reachable restingAloneCtrl" "running restingAloneCtrl"
  "bot restingAloneCtrl = Some (exampleBot\<lparr>isSleeping := True, timeOfDay := Some 23500\<rparr>)"
  "homePosition restingAloneCtrl = Some \<lparr>px = 0, py = 64, pz = 0\<rparr>"
  unfolding restingAloneCtrl_def
  by (simp_all add: reach_step spawnedCtrl_fields step_SessionChanged)

section \<open>The wander step\<close>

lemma moveDirectly_returns: "\<not> isl (moveDirectly x y z s)"
  by (simp add: moveDirectly_def tryCatch_def moveDirectlyTry_def moveDirectlyCatch_def Let_def
      split: option.splits)

lemma moveDirectly_trace: "\<exists>xs. trace (stateOf (moveDirectly x y z s)) = trace s @ xs"
  by (simp add: moveDirectly_def tryCatch_def moveDirectlyTry_def moveDirectlyCatch_def Let_def
      split: option.splits)

lemma armWanderTimer_last:
  assumes "trace s' = trace s @ xs"
  shows "last (newCalls s (armWanderTimer w s')) = SetTimeout w WanderStep"
    "timeoutId (armWanderTimer w s') = Some (loopMs s')"
  using assms by (simp_all add: armWanderTimer_def Let_def newCalls_def)

section \<open>The session handle is held only while running\<close>

lemma connectionTimeoutFired_session:
  "\<not> (running s \<and> (case bot s of None \<Rightarrow> True | Some b \<Rightarrow> entity b = None)) \<Longrightarrow>
     connectionTimeoutFired s = Inr s"
  "running s \<and> (case bot s of None \<Rightarrow> True | Some b \<Rightarrow> entity b = None) \<Longrightarrow>
     running (stateOf (connectionTimeoutFired s)) = False
     \<and> bot (stateOf (connectionTimeoutFired s)) = None"
  by (auto simp add: connectionTimeoutFired_def Let_def)

lemma onError_session:
  "running (stateOf (onError m s)) = False" "bot (stateOf (onError m s)) = None"
  by (simp_all add: onError_def onConnectionError_def onBotError_def stateOf_andThen Let_def
      broadcastStatus_idle)

lemma onKicked_session:
  "running (stateOf (onKicked r s)) = False" "bot (stateOf (onKicked r s)) = None"
  by (simp_all add: onKicked_def)

lemma onSpawn_session:
  "bot (stateOf (onSpawn d s)) = bot s \<and> running (stateOf (onSpawn d s)) = running s"
proof (cases "settings s")
  case None
  then show ?thesis by (simp add: onSpawn_def Let_def)
next
  case (Some cfg)
  then show ?thesis by (simp add: onSpawn_fields [OF Some])
qed

lemma step_keeps:
  "keeps s (step (PlayerJoinedEvent name) s)"
  "keeps s (step (PlayerLeftEvent name) s)"
  "keeps s (step (TimeEvent) s)"
  "keeps s (step (MoveEvent) s)"
  "keeps s (step (GoalReachedEvent bed) s)"
  "keeps s (step (SleepResolved) s)"
  "keeps s (step (SleepRejected m) s)"
  "keeps s (step (CheckWakeRejected m) s)"
  "keeps s (step (CheckWakeRetryFired) s)"
  "keeps s (step (StandardWakeRejected m) s)"
  "keeps s (step (EmergencyWakeResolved) s)"
  "keeps s (step (EmergencyWakeRejected n m) s)"
  "keeps s (step (EmergencyWakeRetryFired n) s)"
  "keeps s (step (ForceWakeUpFired) s)"
  "keeps s (step (WakeupIntervalFired) s)"
  "keeps s (step (SpawnRecheckFired) s)"
  "keeps s (step (BoundaryCheckFired) s)"
  "keeps s (step (ReleaseForwardFired) s)"
  "keeps s (step (WanderStepFired d) s)"
  "keeps s (step (WatchdogFired d) s)"
  by (simp_all add: step_def handle_def keeps_onPlayerJoined keeps_onPlayerLeft keeps_onTime
      keeps_misc keeps_boundaryCheckTick keeps_wanderStep keeps_watchdogTick)

lemma step_sessionInvariant:
  assumes "sessionInvariant s"
  shows "sessionInvariant (step ev s)"
proof (cases ev)
  case (Start created)
  show ?thesis using start_sessionInvariant [OF assms, of created]
    unfolding Start by (simp add: step_def handle_def)
next
  case (Stop q)
  show ?thesis
  proof (cases "running s")
    case True
    from stop_session(2) [OF True, of q] show ?thesis
      unfolding Stop by (simp add: sessionInvariant_def step_def handle_def)
  next
    case False
    from stop_stopped [OF False, of q] assms show ?thesis
      unfolding Stop by (simp add: sessionInvariant_def step_def handle_def)
  qed
next
  case (UpdateSettings cfg)
  show ?thesis using assms unfolding UpdateSettings by (simp add: sessionInvariant_def step_UpdateSettings)
next
  case ClearConsole
  show ?thesis using assms unfolding ClearConsole
    by (simp add: sessionInvariant_def step_def handle_def clearConsole_def)
next
  case (AddClient c)
  show ?thesis using assms unfolding AddClient
    by (simp add: sessionInvariant_def step_def handle_def addClient_def)
next
  case (RemoveClient i)
  show ?thesis using assms unfolding RemoveClient
    by (simp add: sessionInvariant_def step_def handle_def removeClient_def)
next
  case ConnectionTimeoutFired
  show ?thesis
  proof (cases "running s \<and> (case bot s of None \<Rightarrow> True | Some b \<Rightarrow> entity b = None)")
    case True
    from connectionTimeoutFired_session(2) [OF True] show ?thesis
      unfolding ConnectionTimeoutFired by (simp add: sessionInvariant_def step_def handle_def)
  next
    case False
    from connectionTimeoutFired_session(1) [OF False] assms show ?thesis
      unfolding ConnectionTimeoutFired by (simp add: step_def handle_def)
  qed
next
  case (ErrorEvent m)
  show ?thesis unfolding ErrorEvent by (simp add: sessionInvariant_def step_def handle_def onError_session)
next
  case (KickedEvent r)
  show ?thesis unfolding KickedEvent by (simp add: sessionInvariant_def step_def handle_def onKicked_session)
next
  case (SpawnEvent d)
  show ?thesis using assms unfolding SpawnEvent
    by (simp add: sessionInvariant_def step_def handle_def onSpawn_session)
next
  case (SessionChanged b)
  show ?thesis using assms unfolding SessionChanged by (auto simp add: sessionInvariant_def step_def handle_def)
next
  case (ClockChanged t ms)
  show ?thesis using assms unfolding ClockChanged by (simp add: sessionInvariant_def step_def handle_def)
next
  case (SocketChanged i opn)
  show ?thesis using assms unfolding SocketChanged by (simp add: sessionInvariant_def step_def handle_def)
next
  case (PlayerJoinedEvent name)
  show ?thesis unfolding PlayerJoinedEvent by (rule sessionInvariant_keeps [OF step_keeps(1) assms])
next
  case (PlayerLeftEvent name)
  show ?thesis unfolding PlayerLeftEvent by (rule sessionInvariant_keeps [OF step_keeps(2) assms])
next
  case TimeEvent
  show ?thesis unfolding TimeEvent by (rule sessionInvariant_keeps [OF step_keeps(3) assms])
next
  case MoveEvent
  show ?thesis unfolding MoveEvent by (rule sessionInvariant_keeps [OF step_keeps(4) assms])
next
  case (GoalReachedEvent bed)
  show ?thesis unfolding GoalReachedEvent by (rule sessionInvariant_keeps [OF step_keeps(5) assms])
next
  case SleepResolved
  show ?thesis unfolding SleepResolved by (rule sessionInvariant_keeps [OF step_keeps(6) assms])
next
  case (SleepRejected m)
  show ?thesis unfolding SleepRejected by (rule sessionInvariant_keeps [OF step_keeps(7) assms])
next
  case (CheckWakeRejected m)
  show ?thesis unfolding CheckWakeRejected by (rule sessionInvariant_keeps [OF step_keeps(8) assms])
next
  case CheckWakeRetryFired
  show ?thesis unfolding CheckWakeRetryFired by (rule sessionInvariant_keeps [OF step_keeps(9) assms])
next
  case (StandardWakeRejected m)
  show ?thesis unfolding StandardWakeRejected by (rule sessionInvariant_keeps [OF step_keeps(10) assms])
next
  case EmergencyWakeResolved
  show ?thesis unfolding EmergencyWakeResolved by (rule sessionInvariant_keeps [OF step_keeps(11) assms])
next
  case (EmergencyWakeRejected n m)
  show ?thesis unfolding EmergencyWakeRejected by (rule sessionInvariant_keeps [OF step_keeps(12) assms])
next
  case (EmergencyWakeRetryFired n)
  show ?thesis unfolding EmergencyWakeRetryFired by (rule sessionInvariant_keeps [OF step_keeps(13) assms])
next
  case ForceWakeUpFired
  show ?thesis unfolding ForceWakeUpFired by (rule sessionInvariant_keeps [OF step_keeps(14) assms])
next
  case WakeupIntervalFired
  show ?thesis unfolding WakeupIntervalFired by (rule sessionInvariant_keeps [OF step_keeps(15) assms])
next
  case SpawnRecheckFired
  show ?thesis unfolding SpawnRecheckFired by (rule sessionInvariant_keeps [OF step_keeps(16) assms])
next
  case BoundaryCheckFired
  show ?thesis unfolding BoundaryCheckFired by (rule sessionInvariant_keeps [OF step_keeps(17) assms])
next
  case ReleaseForwardFired
  show ?thesis unfolding ReleaseForwardFired by (rule sessionInvariant_keeps [OF step_keeps(18) assms])
next
  case (WanderStepFired d)
  show ?thesis unfolding WanderStepFired by (rule sessionInvariant_keeps [OF step_keeps(19) assms])
next
  case (WatchdogFired d)
  show ?thesis unfolding WatchdogFired by (rule sessionInvariant_keeps [OF step_keeps(20) assms])
qed

lemma reachable_sessionInvariant: "reachable s \<Longrightarrow> sessionInvariant s"
proof (induction rule: reachable.induct)
  case (reach_init clockText clockMs)
  show ?case by (simp add: sessionInvariant_def initialize_def newCtrl_def)
next
  case (reach_step s ev)
  then show ?case by (simp add: step_sessionInvariant)
qed

lemma stopBeforeQuit_fields:
  "running (stopBeforeQuit s) = False" "bot (stopBeforeQuit s) = bot s"
  "clients (stopBeforeQuit s) = clients s" "nowText (stopBeforeQuit s) = nowText s"
  "newCalls s (stopBeforeQuit s) = (if timeoutId s \<noteq> None then [ClearTimeout WanderStep] else [])"
  by (simp_all add: stopBeforeQuit_def Let_def newCalls_def)

lemma stop_first_fields:
  assumes "running s"
  shows "running (stateOf (stop q s)) = False" "bot (stateOf (stop q s)) = None"
    "homePosition (stateOf (stop q s)) = None" "clients (stateOf (stop q s)) = clients s"
    "nowText (stateOf (stop q s)) = nowText s"
    "last (consoleMessages (storage (stateOf (stop q s)))) =
       \<lparr>timestamp = nowText s, message = ''Bot stopped successfully'', mtype = Info\<rparr>"
  using assms
  by (simp_all add: stop_running stopQuit_eq stopBeforeQuit_fields split: option.splits)

lemma stop_first_calls:
  assumes "running s"
  shows "newCalls s (stateOf (stop q s)) =
     (if timeoutId s \<noteq> None then [ClearTimeout WanderStep] else [])
     @ (if bot s \<noteq> None then [Quit] else [])"
  using assms
  by (simp add: stop_running stopQuit_eq stopBeforeQuit_def Let_def newCalls_def split: option.splits)

text \<open>
  C3. \<open>stop\<close> never throws and is idempotent. A first call while running returns
  normally whatever \<open>quit\<close> does (also when it raises); the flag \<open>running\<close> is
  already false, and \<open>quit\<close> not yet called, in the state in which the close of the
  session is attempted; afterwards the session and the home are cleared, the last log
  entry is the success message, and the only calls made besides the sends to the observers
  are the disarming of a pending wander timer and one \<open>quit\<close> (when there was a
  session). A second call right after it returns normally too and is a no-op but for one
  informational log entry: it makes no call (no second \<open>quit\<close>, no timer) and sends
  the observers that console message only, no status snapshot.
\<close>

theorem C3_stop_idempotent:
  assumes "running s"
  shows "\<not> isl (stop q s)
   \<and> andThen (stopQuit q (stopBeforeQuit s)) stopAfterQuit = stop q s
   \<and> running (stopBeforeQuit s) = False
   \<and> Quit \<notin> set (newCalls s (stopBeforeQuit s))
   \<and> running (stateOf (stop q s)) = False
   \<and> bot (stateOf (stop q s)) = None
   \<and> homePosition (stateOf (stop q s)) = None
   \<and> last (consoleMessages (storage (stateOf (stop q s)))) =
        \<lparr>timestamp = nowText s, message = ''Bot stopped successfully'', mtype = Info\<rparr>
   \<and> newCalls s (stateOf (stop q s)) =
        (if timeoutId s \<noteq> None then [ClearTimeout WanderStep] else [])
        @ (if bot s \<noteq> None then [Quit] else [])
   \<and> stop q' (stateOf (stop q s)) =
        Inr (addConsoleMessage ''Bot is already stopped'' Info (stateOf (stop q s)))
   \<and> trace (stateOf (stop q' (stateOf (stop q s)))) =
        trace (stateOf (stop q s))
        @ map (\<lambda>c. Send (cid c) (ConsoleMsg \<lparr>timestamp = nowText s,
                       message = ''Bot is already stopped'', mtype = Info\<rparr>))
              (filter readyOpen (clients s))
   \<and> newCalls (stateOf (stop q s)) (stateOf (stop q' (stateOf (stop q s)))) = []"
proof -
  let ?s1 = "stateOf (stop q s)"
  have r: "\<not> isl (stop q s)"
    using assms by (simp add: stop_running)
  have body: "andThen (stopQuit q (stopBeforeQuit s)) stopAfterQuit = stop q s"
    using assms
    by (simp add: stop_def tryCatch_def andThen_def stopQuit_eq stopAfterQuit_def broadcastStatus_idle)
  have pre: "running (stopBeforeQuit s) = False" "Quit \<notin> set (newCalls s (stopBeforeQuit s))"
    by (simp_all add: stopBeforeQuit_fields)
  have stopped: "\<not> running ?s1"
    using assms by (simp add: stop_first_fields)
  have second: "stop q' ?s1 = Inr (addConsoleMessage ''Bot is already stopped'' Info ?s1)"
    using stopped by (rule stop_stopped)
  have tr: "trace (stateOf (stop q' ?s1)) =
        trace ?s1 @ map (\<lambda>c. Send (cid c) (ConsoleMsg \<lparr>timestamp = nowText s,
                       message = ''Bot is already stopped'', mtype = Info\<rparr>))
              (filter readyOpen (clients s))"
    using assms by (simp add: second stop_first_fields)
  have nc: "newCalls ?s1 (stateOf (stop q' ?s1)) = []"
    using tr by (simp add: newCalls_append)
  from r body pre stopped second tr nc stop_first_fields [OF assms, of q] stop_first_calls [OF assms, of q]
  show ?thesis by simp
qed

theorem C3_stop_idempotent_witness:
  "running (activeCtrl exampleBot)
   \<and> \<not> isl (stop (Some ''socket closed'') (activeCtrl exampleBot))
   \<and> bot (stateOf (stop (Some ''socket closed'') (activeCtrl exampleBot))) = None
   \<and> newCalls (activeCtrl exampleBot) (stateOf (stop (Some ''socket closed'') (activeCtrl exampleBot))) = [Quit]
   \<and> newCalls (stateOf (stop (Some ''socket closed'') (activeCtrl exampleBot)))
        (stateOf (stop None (stateOf (stop (Some ''socket closed'') (activeCtrl exampleBot))))) = []"
proof -
  have run: "running (activeCtrl exampleBot)"
    by (simp add: activeCtrl_def)
  have f: "timeoutId (activeCtrl exampleBot) = None" "bot (activeCtrl exampleBot) \<noteq> None"
    by (simp_all add: activeCtrl_def initialCtrl_def initialize_def newCtrl_def)
  note c = C3_stop_idempotent [OF run, of "Some ''socket closed''" None]
  show ?thesis
    by (insert c f run, elim conjE) simp
qed

section \<open>What the snapshot shows\<close>

text \<open>
  C9. Whenever the controller is not running or has no session, \<open>getBotStatus\<close>
  returns (it does not throw) exactly the default snapshot: not connected, activity
  \<open>Idle\<close>, position (0, 0, 0), time \<open>day\<close>, no participants and nine false area
  cells, whatever the session, the home and the settings hold.
\<close>

theorem C9_default_snapshot_when_disconnected:
  assumes "\<not> running s \<or> bot s = None"
  shows "getBotStatus s = Inr
     \<lparr>connected = False, activity = ''Idle'', position = \<lparr>px = 0, py = 0, pz = 0\<rparr>,
      time = ''day'', players = [],
      area = [False, False, False, False, False, False, False, False, False]\<rparr>"
  using assms by (simp add: getBotStatus_idle eval_nat_numeral)

theorem C9_default_snapshot_when_disconnected_witness:
  "running ((activeCtrl (exampleBot\<lparr>isSleeping := True,
                playerKeys := [''MinecraftBot'', ''alice'']\<rparr>))\<lparr>running := False\<rparr>) = False
   \<and> getBotStatus ((activeCtrl (exampleBot\<lparr>isSleeping := True,
                playerKeys := [''MinecraftBot'', ''alice'']\<rparr>))\<lparr>running := False\<rparr>) = Inr
     \<lparr>connected = False, activity = ''Idle'', position = \<lparr>px = 0, py = 0, pz = 0\<rparr>,
      time = ''day'', players = [],
      area = [False, False, False, False, False, False, False, False, False]\<rparr>"
  using C9_default_snapshot_when_disconnected
    [of "(activeCtrl (exampleBot\<lparr>isSleeping := True,
                playerKeys := [''MinecraftBot'', ''alice'']\<rparr>))\<lparr>running := False\<rparr>"]
  by simp

text \<open>
  C8, as stated, fails: after a start and a spawn, the controller whose session is not resting reports the
  activity \<open>Wandering in 3x3 area\<close>, which is none of \<open>Idle\<close>, \<open>Wandering\<close>,
  \<open>Sleeping\<close>.
\<close>

theorem C8_activity_counterexample:
  "getBotStatus spawnedCtrl = Inr
     \<lparr>connected = True, activity = ''Wandering in 3x3 area'',
      position = \<lparr>px = 0, py = 64, pz = 0\<rparr>, time = ''day'', players = [],
      area = [False, False, False, False, True, False, False, False, False]\<rparr>
   \<and> activity \<lparr>connected = True, activity = ''Wandering in 3x3 area'',
      position = \<lparr>px = 0, py = 64, pz = 0\<rparr>, time = ''day'', players = [],
      area = [False, False, False, False, True, False, False, False, False]\<rparr>
       \<notin> {''Idle'', ''Wandering'', ''Sleeping''}"
  by (simp add: getBotStatus_active [OF spawnedCtrl_fields(2) spawnedCtrl_fields(3) _ spawnedCtrl_fields(4)]
      exampleBot_def floorPos_def otherPlayers_def areaLoop_fresh)

text \<open>
  C8, amended. Whenever \<open>getBotStatus\<close> returns a snapshot, its activity is exactly one
  of the three strings \<open>Idle\<close>, \<open>Wandering in 3x3 area\<close> and \<open>Sleeping\<close>: \<open>Idle\<close>
  when the controller is not running or has no session, \<open>Sleeping\<close> when the running
  session is resting, \<open>Wandering in 3x3 area\<close> otherwise.
\<close>

theorem C8_activity_values:
  assumes "getBotStatus s = Inr st"
  shows "activity st \<in> {''Idle'', ''Wandering in 3x3 area'', ''Sleeping''}
     \<and> activity st =
         (case bot s of
            None \<Rightarrow> ''Idle''
          | Some b \<Rightarrow> if \<not> running s then ''Idle''
                      else if isSleeping b then ''Sleeping'' else ''Wandering in 3x3 area'')"
  using getBotStatus_activity [OF assms] by (simp split: option.splits)

theorem C8_activity_values_witness:
  "getBotStatus spawnedCtrl = Inr
     \<lparr>connected = True, activity = ''Wandering in 3x3 area'',
      position = \<lparr>px = 0, py = 64, pz = 0\<rparr>, time = ''day'', players = [],
      area = [False, False, False, False, True, False, False, False, False]\<rparr>
   \<and> activity \<lparr>connected = True, activity = ''Wandering in 3x3 area'',
      position = \<lparr>px = 0, py = 64, pz = 0\<rparr>, time = ''day'', players = [],
      area = [False, False, False, False, True, False, False, False, False]\<rparr>
       \<in> {''Idle'', ''Wandering in 3x3 area'', ''Sleeping''}"
proof -
  have g: "getBotStatus spawnedCtrl = Inr
     \<lparr>connected = True, activity = ''Wandering in 3x3 area'',
      position = \<lparr>px = 0, py = 64, pz = 0\<rparr>, time = ''day'', players = [],
      area = [False, False, False, False, True, False, False, False, False]\<rparr>"
    by (simp add: getBotStatus_active [OF spawnedCtrl_fields(2) spawnedCtrl_fields(3) _ spawnedCtrl_fields(4)]
      exampleBot_def floorPos_def otherPlayers_def areaLoop_fresh)
  from g C8_activity_values [OF g] show ?thesis by blast
qed




section \<open>The two night windows\<close>

lemma newCalls_self [simp]: "newCalls s s = []"
  by (simp add: newCalls_def)

lemma shouldSleep_eq:
  assumes "bot s = Some b" "timeOfDay b = Some t"
  shows "fst (shouldSleep s) = (13000 \<le> t \<and> t \<le> 23000 \<and> length (playerKeys b) > 1)"
  using assms by (simp add: shouldSleep_def isNightTime_def Let_def)

lemma shouldSleep_false:
  "\<not> fst (shouldSleep s) \<Longrightarrow> shouldSleep s = (False, s)"
  by (auto simp add: shouldSleep_def Let_def split: option.splits if_splits)

lemma checkSleepConditions_calls:
  assumes "running s" "bot s = Some b"
  shows "newCalls s (checkSleepConditions s) =
     (if isSleeping b \<and> otherPlayers b = [] then [Wake CheckWake]
      else if isSleeping b \<and> \<not> isNightTime b then [Wake StandardWake]
      else if \<not> isSleeping b \<and> isNightTime b \<and> otherPlayers b \<noteq> [] then
        FindBlock # (case nearBed b of None \<Rightarrow> []
                     | Some bed \<Rightarrow> [SetGoal None, SetGoal (Some (GoalNear (px bed) (py bed) (pz bed) 1)),
                                   OnceGoalReached bed])
      else [])"
  using assms
  by (simp add: checkSleepConditions_def attemptWakeUp_def findAndSleepInBed_def Let_def
      newCalls_def split: option.splits)

text \<open>
  C10, as stated, fails in its last clause: after a start and a spawn, with the agent
  resting alone at time of day 23500, the snapshot says night and the check of the rest
  scheduler issues the wake of its emergency branch and returns; the standard daytime
  wake is not issued.
\<close>

theorem C10_night_windows_counterexample:
  "reachable restingAloneCtrl
   \<and> time (projr (getBotStatus restingAloneCtrl)) = ''night''
   \<and> newCalls restingAloneCtrl (checkSleepConditions restingAloneCtrl) = [Wake CheckWake]
   \<and> Wake StandardWake \<notin> set (newCalls restingAloneCtrl (checkSleepConditions restingAloneCtrl))"
proof -
  let ?b = "exampleBot\<lparr>isSleeping := True, timeOfDay := Some 23500\<rparr>"
  note f = restingAloneCtrl_fields
  have e: "entity ?b = Some \<lparr>vx = 0, vy = 64, vz = 0\<rparr>" "isSleeping ?b" "otherPlayers ?b = []"
    "timeOfDay ?b = Some 23500"
    by (simp_all add: exampleBot_def otherPlayers_def)
  have t: "time (projr (getBotStatus restingAloneCtrl)) = ''night''"
    by (simp add: getBotStatus_active [OF f(2,3) e(1) f(4)] e(4))
  have c: "newCalls restingAloneCtrl (checkSleepConditions restingAloneCtrl) = [Wake CheckWake]"
    unfolding checkSleepConditions_calls [OF f(2,3)] using e(2,3) by simp
  from f(1) t c show ?thesis by simp
qed



section \<open>A start that is refused\<close>

lemma start_refused:
  assumes "\<not> running s"
    and "serverAddress (botSettings (storage s)) = [] \<or>
         serverAddress (botSettings (storage s)) = placeholderAddress"
  shows "start created s =
     Inr (sendAll (StatusMsg idleStatus)
            (addConsoleMessage placeholderMessage Error
               (addConsoleMessage invalidAddressMessage Error
                  (s\<lparr>settings := Some (botSettings (storage s))\<rparr>))))"
  using assms
  by (auto simp add: start_def Let_def broadcastStatus_idle invalidAddressMessage_def
      placeholderMessage_def)

text \<open>
  C1, as stated, fails: a fresh controller (placeholder address, one entry in the log)
  that is told to start holds three entries afterwards: the refusal appends two entries,
  not one.
\<close>

theorem C1_start_refused_counterexample:
  "running initialCtrl = False
   \<and> serverAddress (botSettings (storage initialCtrl)) = ''mc.example.com''
   \<and> length (consoleMessages (storage initialCtrl)) = 1
   \<and> length (consoleMessages (storage (stateOf (start (Inr exampleBot) initialCtrl)))) = 3"
proof -
  have a: "running initialCtrl = False"
    "serverAddress (botSettings (storage initialCtrl)) = ''mc.example.com''"
    "length (consoleMessages (storage initialCtrl)) = 1"
    by (simp_all add: initialCtrl_def initialize_def newCtrl_def newMemStorage_def storeAdd_messages)
  have r: "\<not> running initialCtrl"
    "serverAddress (botSettings (storage initialCtrl)) = [] \<or>
         serverAddress (botSettings (storage initialCtrl)) = placeholderAddress"
    using a by (simp_all add: placeholderAddress_def)
  show ?thesis
    using a by (simp add: start_refused [OF r] storeAdd_messages)
qed

text \<open>
  C1, amended. If \<open>start\<close> is called while not running and the stored address is empty
  or the placeholder \<open>mc.example.com\<close>, then \<open>start\<close> returns normally, leaves
  \<open>running\<close> false and the session handle as it was, makes no call but sends to the
  observers (no session is created, no timer armed), the snapshot is the disconnected
  one, and exactly two error entries are appended to the log: the invalid-address error
  and the placeholder explanation.
\<close>

theorem C1_start_refused:
  assumes "\<not> running s"
    and "serverAddress (botSettings (storage s)) = [] \<or>
         serverAddress (botSettings (storage s)) = placeholderAddress"
  shows "\<not> isl (start created s)
   \<and> running (stateOf (start created s)) = False
   \<and> bot (stateOf (start created s)) = bot s
   \<and> newCalls s (stateOf (start created s)) = []
   \<and> getBotStatus (stateOf (start created s)) = Inr idleStatus
   \<and> storage (stateOf (start created s)) =
        storeAddConsoleMessage \<lparr>timestamp = nowText s, message = placeholderMessage, mtype = Error\<rparr>
          (storeAddConsoleMessage
             \<lparr>timestamp = nowText s, message = invalidAddressMessage, mtype = Error\<rparr> (storage s))
   \<and> (length (consoleMessages (storage s)) \<le> 98 \<longrightarrow>
        length (consoleMessages (storage (stateOf (start created s))))
          = length (consoleMessages (storage s)) + 2)"
proof -
  note r = start_refused [OF assms, of created]
  have st: "storage (stateOf (start created s)) =
        storeAddConsoleMessage \<lparr>timestamp = nowText s, message = placeholderMessage, mtype = Error\<rparr>
          (storeAddConsoleMessage
             \<lparr>timestamp = nowText s, message = invalidAddressMessage, mtype = Error\<rparr> (storage s))"
    by (simp add: r)
  have f: "\<not> isl (start created s)" "running (stateOf (start created s)) = False"
    "bot (stateOf (start created s)) = bot s"
    using assms(1) by (simp_all add: r)
  have nc: "newCalls s (stateOf (start created s)) = []"
    by (simp add: r newCalls_def)
  have g: "getBotStatus (stateOf (start created s)) = Inr idleStatus"
    using f(2) by (simp add: getBotStatus_idle idleStatus_def)
  have len: "length (consoleMessages (storage s)) \<le> 98 \<longrightarrow>
        length (consoleMessages (storage (stateOf (start created s))))
          = length (consoleMessages (storage s)) + 2"
    unfolding st by (simp add: storeAdd_messages)
  from f nc g st len show ?thesis by (intro conjI)
qed

theorem C1_start_refused_witness:
  "running initialCtrl = False
   \<and> serverAddress (botSettings (storage initialCtrl)) = placeholderAddress
   \<and> running (stateOf (start (Inr exampleBot) initialCtrl)) = False
   \<and> bot (stateOf (start (Inr exampleBot) initialCtrl)) = None
   \<and> newCalls initialCtrl (stateOf (start (Inr exampleBot) initialCtrl)) = []
   \<and> length (consoleMessages (storage (stateOf (start (Inr exampleBot) initialCtrl)))) = 3"
proof -
  have a: "running initialCtrl = False" "bot initialCtrl = None"
    "serverAddress (botSettings (storage initialCtrl)) = placeholderAddress"
    "length (consoleMessages (storage initialCtrl)) = 1"
    by (simp_all add: initialCtrl_def initialize_def newCtrl_def newMemStorage_def storeAdd_messages
        placeholderAddress_def)
  have r: "\<not> running initialCtrl"
    "serverAddress (botSettings (storage initialCtrl)) = [] \<or>
         serverAddress (botSettings (storage initialCtrl)) = placeholderAddress"
    using a by simp_all
  note c = C1_start_refused [OF r, of "Inr exampleBot"]
  show ?thesis
    by (insert c a, elim conjE) simp
qed

section \<open>The last participant leaves\<close>

lemma getBotStatus_returns:
  "bot s = Some b \<Longrightarrow> entity b = Some p \<Longrightarrow> \<not> isl (getBotStatus s)"
  by (simp add: getBotStatus_def Let_def split: option.splits)

lemma broadcastStatus_returns:
  "\<not> isl (getBotStatus s) \<Longrightarrow>
   broadcastStatus s = Inr (sendAll (StatusMsg (projr (getBotStatus s))) s)"
  by (cases "getBotStatus s") (simp_all add: broadcastStatus_def)

lemma forceWakeUpNow_awake:
  "bot s = Some b \<Longrightarrow> \<not> isSleeping b \<Longrightarrow> forceWakeUpNow s = s"
  by (simp add: forceWakeUpNow_def)

lemma forceWakeUpNow_calls:
  "bot s = Some b \<Longrightarrow> running s \<Longrightarrow> isSleeping b \<Longrightarrow> otherPlayers b = [] \<Longrightarrow>
   newCalls s (forceWakeUpNow s) = [Wake (EmergencyWake 0)]"
  by (simp add: forceWakeUpNow_def attemptWake_def Let_def newCalls_def)

text \<open>
  C4. When the \<open>playerLeft\<close> listener runs in a running controller whose session (with
  a spawned entity) is resting and has no other participant left in its player table, it
  returns normally and the calls it makes, besides the sends to the observers, are in
  order: an emergency wake at once, the three timers of \<open>forceWakeUpNow\<close> at 500, 1500
  and 3000 ms, and the wake of the standard check that follows. The callback of these
  timers is \<open>forceWakeUpNow\<close>: it changes nothing when the session is not resting, and
  issues one wake when the session still rests alone.
\<close>

theorem C4_last_player_left_wakes:
  assumes "running s" and "bot s = Some b" and "entity b = Some p"
    and "isSleeping b" and "otherPlayers b = []"
  shows "\<not> isl (onPlayerLeft name s)
   \<and> newCalls s (stateOf (onPlayerLeft name s)) =
        [Wake (EmergencyWake 0), SetTimeout 500 ForceWakeUp, SetTimeout 1500 ForceWakeUp,
         SetTimeout 3000 ForceWakeUp, Wake CheckWake]
   \<and> handle ForceWakeUpFired s' = Inr (forceWakeUpNow s')
   \<and> (bot s' = Some b' \<and> \<not> isSleeping b' \<longrightarrow> forceWakeUpNow s' = s')
   \<and> (bot s' = Some b' \<and> running s' \<and> isSleeping b' \<and> otherPlayers b' = [] \<longrightarrow>
        newCalls s' (forceWakeUpNow s') = [Wake (EmergencyWake 0)])"
proof -
  define s1 where "s1 = addConsoleMessage (''Player '' @ name @ '' left the game'') Info s"
  have s1: "bot s1 = Some b" "running s1"
    "trace s1 = trace s @ map (\<lambda>c. Send (cid c) (ConsoleMsg \<lparr>timestamp = nowText s,
         message = ''Player '' @ name @ '' left the game'', mtype = Info\<rparr>))
       (filter readyOpen (clients s))"
    using assms(1,2) by (simp_all add: s1_def del: append.simps)
  have g: "\<not> isl (getBotStatus s1)"
    using s1(1) assms(3) by (rule getBotStatus_returns)
  have l: "onPlayerLeft name s =
      Inr (checkSleepConditions
             (emit (SetTimeout 3000 ForceWakeUp)
                (emit (SetTimeout 1500 ForceWakeUp)
                   (emit (SetTimeout 500 ForceWakeUp)
                      (forceWakeUpNow
                         (addConsoleMessage
                            ''CRITICAL EVENT: Last player left the game - checking sleep status''
                            Warning
                            (sendAll (StatusMsg (projr (getBotStatus s1))) s1)))))))"
    unfolding onPlayerLeft_def s1_def [symmetric]
    using s1(1) assms(5)
    by (simp add: broadcastStatus_returns [OF g] andThen_def Let_def)
  have a: "\<not> isl (onPlayerLeft name s)"
    by (simp add: l)
  have c: "newCalls s (stateOf (onPlayerLeft name s)) =
        [Wake (EmergencyWake 0), SetTimeout 500 ForceWakeUp, SetTimeout 1500 ForceWakeUp,
         SetTimeout 3000 ForceWakeUp, Wake CheckWake]"
    using assms s1
    by (simp add: l checkSleepConditions_def attemptWakeUp_def forceWakeUpNow_def attemptWake_def
        Let_def newCalls_def del: append.simps)
  have h: "handle ForceWakeUpFired s' = Inr (forceWakeUpNow s')"
    by (simp add: handle_def)
  from a c h forceWakeUpNow_awake [of s' b'] forceWakeUpNow_calls [of s' b']
  show ?thesis by blast
qed

theorem C4_last_player_left_wakes_witness:
  "running (activeCtrl (exampleBot\<lparr>isSleeping := True\<rparr>))
   \<and> otherPlayers (exampleBot\<lparr>isSleeping := True\<rparr>) = []
   \<and> newCalls (activeCtrl (exampleBot\<lparr>isSleeping := True\<rparr>))
        (stateOf (onPlayerLeft ''alice'' (activeCtrl (exampleBot\<lparr>isSleeping := True\<rparr>)))) =
        [Wake (EmergencyWake 0), SetTimeout 500 ForceWakeUp, SetTimeout 1500 ForceWakeUp,
         SetTimeout 3000 ForceWakeUp, Wake CheckWake]
   \<and> forceWakeUpNow (activeCtrl exampleBot) = activeCtrl exampleBot
   \<and> newCalls (activeCtrl (exampleBot\<lparr>isSleeping := True\<rparr>))
        (forceWakeUpNow (activeCtrl (exampleBot\<lparr>isSleeping := True\<rparr>))) = [Wake (EmergencyWake 0)]"
proof -
  let ?b = "exampleBot\<lparr>isSleeping := True\<rparr>"
  have h: "running (activeCtrl ?b)" "bot (activeCtrl ?b) = Some ?b"
    "entity ?b = Some \<lparr>vx = 0, vy = 64, vz = 0\<rparr>" "isSleeping ?b" "otherPlayers ?b = []"
    by (simp_all add: activeCtrl_def exampleBot_def otherPlayers_def)
  have k: "bot (activeCtrl exampleBot) = Some exampleBot" "\<not> isSleeping exampleBot"
    by (simp_all add: activeCtrl_def exampleBot_def)
  note c1 = C4_last_player_left_wakes [OF h, of "''alice''" "activeCtrl exampleBot" exampleBot]
  note c2 = C4_last_player_left_wakes [OF h, of "''alice''" "activeCtrl ?b" ?b]
  show ?thesis
    by (insert c1 c2 h k, elim conjE) simp
qed

lemma jsAddInt_offset:
  assumes "\<bar>h\<bar> < 2 ^ 53" and "k \<in> {- 1, 0, 1}"
  shows "jsAddInt h k = h + k"
  using assms(2) jsAddInt_near [OF assms(1)] by auto

lemma shouldSleep_fst:
  "bot s = Some b \<Longrightarrow> fst (shouldSleep s) = (isNightTime b \<and> 1 < length (playerKeys b))"
  by (simp add: shouldSleep_def Let_def)

lemma filter_others_length:
  "distinct xs \<Longrightarrow> u \<in> set xs \<Longrightarrow> Suc (length (filter (\<lambda>n. n \<noteq> u) xs)) = length xs"
proof (induction xs)
  case Nil
  then show ?case by simp
next
  case (Cons x xs)
  show ?case
  proof (cases "x = u")
    case True
    with Cons.prems have "u \<notin> set xs" by simp
    then have "filter (\<lambda>n. n \<noteq> u) xs = xs" by (auto simp add: filter_id_conv)
    with True show ?thesis by simp
  next
    case False
    with Cons show ?thesis by simp
  qed
qed

lemma otherPlayers_nonempty:
  assumes "username b \<in> set (playerKeys b)" and "distinct (playerKeys b)"
  shows "(otherPlayers b \<noteq> []) = (1 < length (playerKeys b))"
proof -
  from filter_others_length [OF assms(2,1)]
  have "Suc (length (otherPlayers b)) = length (playerKeys b)" by (simp add: otherPlayers_def)
  then show ?thesis by (cases "otherPlayers b") auto
qed


lemma andThen_moveDirectly:
  "andThen (moveDirectly x y z s) f = f (stateOf (moveDirectly x y z s))"
  using moveDirectly_returns [of x y z s] by (cases "moveDirectly x y z s") (simp_all add: andThen_def)

lemma wanderStep_rests:
  assumes "running s" and "bot s = Some b" and "homePosition s = Some home"
    and "fst (shouldSleep s)"
  shows "wanderStep d s = Inr (findAndSleepInBed (snd (shouldSleep s)))"
  using assms by (cases "shouldSleep s") (simp add: wanderStep_def)

lemma findAndSleepInBed_calls:
  assumes "bot s' = Some b" and "trace s' = trace s @ xs"
  shows "newCalls s (findAndSleepInBed s') = filter (\<lambda>e. \<not> isSend e) xs @
     FindBlock # (case nearBed b of None \<Rightarrow> []
                   | Some bed \<Rightarrow> [SetGoal None, SetGoal (Some (GoalNear (px bed) (py bed) (pz bed) 1)),
                                   OnceGoalReached bed])"
  using assms by (simp add: findAndSleepInBed_def Let_def newCalls_def split: option.splits)

lemma shouldSleep_true_state:
  "fst (shouldSleep s) \<Longrightarrow>
   snd (shouldSleep s) = addConsoleMessage ''Night time detected with players online - should sleep'' Info s"
  by (auto simp add: shouldSleep_def Let_def split: option.splits if_splits)

lemma wanderStep_proceeds:
  assumes "running s" and "bot s = Some b" and "homePosition s = Some home"
    and "\<not> fst (shouldSleep s)"
    and "jsAddInt (px home) (randomOffset (drawX d)) = tx"
    and "jsAddInt (pz home) (randomOffset (drawZ d)) = tz"
  shows "wanderStep d s =
     Inr (armWanderTimer (randomWait (drawWait d))
            (stateOf (moveDirectly tx (py home) tz
                        (addConsoleMessage
                           (''Wandering to position X:'' @ showInt tx
                              @ '' Y:'' @ showInt (py home)
                              @ '' Z:'' @ showInt tz) Info s))))"
proof -
  have "wanderStep d s =
      tryCatch (wanderTry tx (py home) tz (drawWait d) s) wanderCatch"
    using assms shouldSleep_false [OF assms(4)]
    by (simp add: wanderStep_def Let_def)
  then show ?thesis
    by (simp only: wanderTry_def andThen_moveDirectly tryCatch_def sum.case)
qed

text \<open>What one call of \<open>moveDirectly\<close> adds to the trace and to the log.\<close>

lemma moveDirectly_blind:
  assumes "running s" and "bot s = Some b" and "entity b = None"
  shows "moveDirectly x y z s =
     Inr (emit ClearControlStates
            (addConsoleMessage (''Error during direct movement: '' @ showExn entityUndefined) Error
               (emit (SetGoal None) s)))"
  using assms
  by (simp add: moveDirectly_def moveDirectlyTry_def moveDirectlyCatch_def tryCatch_def Let_def)

lemma moveDirectly_steers:
  assumes "running s" and "bot s = Some b" and "entity b = Some p"
  shows "moveDirectly x y z s =
     Inr (addConsoleMessage
            (''Moving directly to X:'' @ showInt x @ '' Y:'' @ showInt y @ '' Z:'' @ showInt z) Info
            (emit (SetTimeout 1000 ReleaseForward)
               (if \<lfloor>vx p\<rfloor> < x then
                  emit (LookAt (p\<lparr>vx := jsAdd (vx p) 1\<rparr>)) (emit (SetControlState True) (emit (SetGoal None) s))
                else if x < \<lfloor>vx p\<rfloor> then
                  emit (LookAt (p\<lparr>vx := jsSub (vx p) 1\<rparr>)) (emit (SetControlState True) (emit (SetGoal None) s))
                else if \<lfloor>vz p\<rfloor> < z then
                  emit (LookAt (p\<lparr>vz := jsAdd (vz p) 1\<rparr>)) (emit (SetControlState True) (emit (SetGoal None) s))
                else if z < \<lfloor>vz p\<rfloor> then
                  emit (LookAt (p\<lparr>vz := jsSub (vz p) 1\<rparr>)) (emit (SetControlState True) (emit (SetGoal None) s))
                else emit (SetGoal None) s)))"
  using assms
  by (simp add: moveDirectly_def moveDirectlyTry_def tryCatch_def Let_def jsSubInt_sign)

lemma wander_effects:
  fixes m :: string and x y z :: int and w :: real and s :: Ctrl
  assumes "running s" and "bot s = Some b"
  defines "s1 \<equiv> addConsoleMessage m Info s"
  defines "s2 \<equiv> stateOf (moveDirectly x y z s1)"
  defines "s3 \<equiv> armWanderTimer w s2"
  shows "newCalls s s3 =
      SetGoal None #
      (case entity b of
         None \<Rightarrow> [ClearControlStates]
       | Some p \<Rightarrow>
           (if \<lfloor>vx p\<rfloor> < x then [SetControlState True, LookAt (p\<lparr>vx := jsAdd (vx p) 1\<rparr>)]
            else if x < \<lfloor>vx p\<rfloor> then [SetControlState True, LookAt (p\<lparr>vx := jsSub (vx p) 1\<rparr>)]
            else if \<lfloor>vz p\<rfloor> < z then [SetControlState True, LookAt (p\<lparr>vz := jsAdd (vz p) 1\<rparr>)]
            else if z < \<lfloor>vz p\<rfloor> then [SetControlState True, LookAt (p\<lparr>vz := jsSub (vz p) 1\<rparr>)]
            else [])
           @ [SetTimeout 1000 ReleaseForward])
      @ (if timeoutId s = None then [] else [ClearTimeout WanderStep])
      @ [SetTimeout w WanderStep]"
    and "storage s3 =
      storeAddConsoleMessage
        \<lparr>timestamp = nowText s,
         message = (case entity b of
                      None \<Rightarrow> ''Error during direct movement: '' @ showExn entityUndefined
                    | Some p \<Rightarrow> ''Moving directly to X:'' @ showInt x @ '' Y:'' @ showInt y
                                @ '' Z:'' @ showInt z),
         mtype = (case entity b of None \<Rightarrow> Error | Some p \<Rightarrow> Info)\<rparr>
        (storeAddConsoleMessage \<lparr>timestamp = nowText s, message = m, mtype = Info\<rparr> (storage s))"
    and "timeoutId s3 = Some (loopMs s)"
proof -
  have s1: "running s1" "bot s1 = Some b" using assms(1,2) by (simp_all add: s1_def)
  have f1: "trace s1 = trace s @ map (\<lambda>c. Send (cid c) (ConsoleMsg \<lparr>timestamp = nowText s,
         message = m, mtype = Info\<rparr>)) (filter readyOpen (clients s))"
    "storage s1 = storeAddConsoleMessage \<lparr>timestamp = nowText s, message = m, mtype = Info\<rparr> (storage s)"
    "timeoutId s1 = timeoutId s" "loopMs s1 = loopMs s" "nowText s1 = nowText s"
    "clients s1 = clients s"
    by (simp_all add: s1_def)
  show "newCalls s s3 =
      SetGoal None #
      (case entity b of
         None \<Rightarrow> [ClearControlStates]
       | Some p \<Rightarrow>
           (if \<lfloor>vx p\<rfloor> < x then [SetControlState True, LookAt (p\<lparr>vx := jsAdd (vx p) 1\<rparr>)]
            else if x < \<lfloor>vx p\<rfloor> then [SetControlState True, LookAt (p\<lparr>vx := jsSub (vx p) 1\<rparr>)]
            else if \<lfloor>vz p\<rfloor> < z then [SetControlState True, LookAt (p\<lparr>vz := jsAdd (vz p) 1\<rparr>)]
            else if z < \<lfloor>vz p\<rfloor> then [SetControlState True, LookAt (p\<lparr>vz := jsSub (vz p) 1\<rparr>)]
            else [])
           @ [SetTimeout 1000 ReleaseForward])
      @ (if timeoutId s = None then [] else [ClearTimeout WanderStep])
      @ [SetTimeout w WanderStep]"
  proof (cases "entity b")
    case None
    show ?thesis
      unfolding s3_def s2_def moveDirectly_blind [OF s1 None]
      by (simp add: None f1 armWanderTimer_def Let_def newCalls_def)
  next
    case (Some p)
    show ?thesis
      unfolding s3_def s2_def moveDirectly_steers [OF s1 Some]
      by (simp add: Some f1 armWanderTimer_def Let_def newCalls_def)
  qed
  show "storage s3 =
      storeAddConsoleMessage
        \<lparr>timestamp = nowText s,
         message = (case entity b of
                      None \<Rightarrow> ''Error during direct movement: '' @ showExn entityUndefined
                    | Some p \<Rightarrow> ''Moving directly to X:'' @ showInt x @ '' Y:'' @ showInt y
                                @ '' Z:'' @ showInt z),
         mtype = (case entity b of None \<Rightarrow> Error | Some p \<Rightarrow> Info)\<rparr>
        (storeAddConsoleMessage \<lparr>timestamp = nowText s, message = m, mtype = Info\<rparr> (storage s))"
  proof (cases "entity b")
    case None
    show ?thesis
      unfolding s3_def s2_def moveDirectly_blind [OF s1 None]
      by (simp add: None f1 armWanderTimer_def Let_def)
  next
    case (Some p)
    show ?thesis
      unfolding s3_def s2_def moveDirectly_steers [OF s1 Some]
      by (simp add: Some f1 armWanderTimer_def Let_def)
  qed
  show "timeoutId s3 = Some (loopMs s)"
  proof (cases "entity b")
    case None
    show ?thesis
      unfolding s3_def s2_def moveDirectly_blind [OF s1 None]
      by (simp add: f1 armWanderTimer_def Let_def)
  next
    case (Some p)
    show ?thesis
      unfolding s3_def s2_def moveDirectly_steers [OF s1 Some]
      by (simp add: f1 armWanderTimer_def Let_def)
  qed
qed


lemma wanderStep_rest_calls:
  assumes "running s" and "bot s = Some b" and "homePosition s = Some home"
    and "fst (shouldSleep s)"
  shows "\<not> isl (wanderStep d s)"
    "newCalls s (stateOf (wanderStep d s)) =
       FindBlock # (case nearBed b of
                      None \<Rightarrow> []
                    | Some bed \<Rightarrow>
                        [SetGoal None, SetGoal (Some (GoalNear (px bed) (py bed) (pz bed) 1)),
                         OnceGoalReached bed])"
proof -
  note w = wanderStep_rests [OF assms, of d]
  let ?s1 = "snd (shouldSleep s)"
  have s1: "bot ?s1 = Some b"
    "trace ?s1 = trace s @ map (\<lambda>c. Send (cid c) (ConsoleMsg \<lparr>timestamp = nowText s,
        message = ''Night time detected with players online - should sleep'', mtype = Info\<rparr>))
      (filter readyOpen (clients s))"
    using assms(2) by (simp_all add: shouldSleep_true_state [OF assms(4)])
  show "\<not> isl (wanderStep d s)" by (simp add: w)
  show "newCalls s (stateOf (wanderStep d s)) =
       FindBlock # (case nearBed b of
                      None \<Rightarrow> []
                    | Some bed \<Rightarrow>
                        [SetGoal None, SetGoal (Some (GoalNear (px bed) (py bed) (pz bed) 1)),
                         OnceGoalReached bed])"
    unfolding w using findAndSleepInBed_calls [OF s1] by simp
qed

text \<open>
  C7, as stated, fails in two places. After a start and a spawn, with the agent already
  resting at night and another participant present, the rest scheduler's own check finds
  nothing to do (the rest conditions do not hold: the agent rests already), yet the wander
  step does not proceed: \<open>shouldSleep\<close> does not look at the rest flag, and the step
  searches for a bed and arms no timer. And the delay is not always below 8000: for the
  draw \<open>1 - 2^-52\<close>, a double in \<open>[0, 1)\<close>, the double sum \<open>5000 + r * 3000\<close> is
  exactly 8000.
\<close>

theorem C7_wander_step_counterexample:
  "reachable restingAtNightCtrl
   \<and> newCalls restingAtNightCtrl (checkSleepConditions restingAtNightCtrl) = []
   \<and> newCalls restingAtNightCtrl (stateOf (wanderStep exampleDraws restingAtNightCtrl)) = [FindBlock]
   \<and> isDouble (1 - 1 / 2 ^ 52) \<and> (0::real) \<le> 1 - 1 / 2 ^ 52 \<and> (1 - 1 / 2 ^ 52 :: real) < 1
   \<and> randomWait (1 - 1 / 2 ^ 52) = 8000"
proof -
  let ?b = "exampleBot\<lparr>isSleeping := True, timeOfDay := Some 14000,
                                       playerKeys := [''MinecraftBot'', ''alice'']\<rparr>"
  note f = restingAtNightCtrl_fields
  have n: "isNightTime ?b" "isSleeping ?b" "otherPlayers ?b \<noteq> []" "nearBed ?b = None"
    "length (playerKeys ?b) = 2"
    by (simp_all add: isNightTime_def exampleBot_def otherPlayers_def)
  have c: "newCalls restingAtNightCtrl (checkSleepConditions restingAtNightCtrl) = []"
    unfolding checkSleepConditions_calls [OF f(2,3)] using n by simp
  have sl: "fst (shouldSleep restingAtNightCtrl)"
    unfolding shouldSleep_fst [OF f(3)] using n by simp
  have w: "newCalls restingAtNightCtrl (stateOf (wanderStep exampleDraws restingAtNightCtrl)) = [FindBlock]"
    unfolding wanderStep_rest_calls(2) [OF f(2,3,4) sl] n(4) by simp
  from f(1) c w isDouble_edge randomWait_edge show ?thesis by simp
qed



text \<open>
  C6. In every state the controller can reach by any sequence of public calls, session
  events, timer and promise callbacks and changes of the environment, the session handle
  is non-null only while \<open>running\<close> is true. Each of the four paths that lower the flag
  clears the handle in the same callback: \<open>stop\<close> called while running, the connection
  timeout when its guard holds (otherwise it changes nothing), the connection error
  listener and the \<open>kicked\<close> listener.
\<close>

theorem C6_session_only_while_running:
  assumes "reachable s"
  shows "(bot s \<noteq> None \<longrightarrow> running s)
   \<and> (running s' \<longrightarrow> running (stateOf (stop q s')) = False \<and> bot (stateOf (stop q s')) = None)
   \<and> (if running s' \<and> (case bot s' of None \<Rightarrow> True | Some b \<Rightarrow> entity b = None)
       then running (stateOf (connectionTimeoutFired s')) = False
            \<and> bot (stateOf (connectionTimeoutFired s')) = None
       else connectionTimeoutFired s' = Inr s')
   \<and> running (stateOf (onError m s')) = False \<and> bot (stateOf (onError m s')) = None
   \<and> running (stateOf (onKicked r s')) = False \<and> bot (stateOf (onKicked r s')) = None"
proof -
  have inv: "bot s \<noteq> None \<longrightarrow> running s"
    using reachable_sessionInvariant [OF assms] by (simp add: sessionInvariant_def)
  have st: "running s' \<longrightarrow> running (stateOf (stop q s')) = False \<and> bot (stateOf (stop q s')) = None"
    by (simp add: stop_first_fields)
  have ct: "if running s' \<and> (case bot s' of None \<Rightarrow> True | Some b \<Rightarrow> entity b = None)
       then running (stateOf (connectionTimeoutFired s')) = False
            \<and> bot (stateOf (connectionTimeoutFired s')) = None
       else connectionTimeoutFired s' = Inr s'"
    using connectionTimeoutFired_session [of s'] by (simp split: if_splits)
  from inv st ct onError_session [of m s'] onKicked_session [of r s'] show ?thesis
    by (intro conjI)
qed

theorem C6_session_only_while_running_witness:
  "bot spawnedCtrl = Some exampleBot \<and> running spawnedCtrl
   \<and> running (stateOf (stop None spawnedCtrl)) = False
   \<and> bot (stateOf (stop None spawnedCtrl)) = None
   \<and> running (stateOf (connectionTimeoutFired initialCtrl)) = False"
proof -
  note c = C6_session_only_while_running [OF spawnedCtrl_fields(1), of spawnedCtrl None]
  have s: "running (stateOf (stop None spawnedCtrl)) = False \<and> bot (stateOf (stop None spawnedCtrl)) = None"
    using c spawnedCtrl_fields(2) by blast
  have i: "connectionTimeoutFired initialCtrl = Inr initialCtrl"
    by (simp add: connectionTimeoutFired_def initialCtrl_fields)
  from s i spawnedCtrl_fields(2,3) initialCtrl_fields(1) show ?thesis by simp
qed

end
